theory Spec2Isabelle
  imports Complex_Main
begin

section \<open>Damage regions\<close>

text \<open>
  The render manager keeps its damage in \<^verbatim>\<open>pixman_region32_t\<close> values: finite unions of
  axis-aligned boxes of output pixels.  pixman is a library the manager links against;
  what the manager relies on is which pixels a region covers.  A region is modelled as
  a list of boxes and is read through \<open>pixels\<close>, the set of pixels it covers; the order
  and the splitting of the boxes carry no meaning (pixman keeps a canonical list of
  bands, the model does not).  A box is good when it is not empty (pixman's
  \<^verbatim>\<open>GOOD_RECT\<close>); a region is not empty when it has a good box, that is, a pixel.
  Coordinates are C \<^verbatim>\<open>int\<close>s in the source; they are unbounded integers here, so the
  model speaks about coordinates that stay inside the 32-bit range (signed overflow is
  undefined in the source).
\<close>

record pixman_box32 =
  x1 :: int
  y1 :: int
  x2 :: int
  y2 :: int

type_synonym pixman_region32 = "pixman_box32 list"

text \<open>\<^verbatim>\<open>wlr_box\<close>: \<^verbatim>\<open>{x, y, width, height}\<close>.\<close>

record wlr_box =
  box_x :: int
  box_y :: int
  box_width :: int
  box_height :: int

definition good_rect :: "pixman_box32 \<Rightarrow> bool" where
  "good_rect b = (x1 b < x2 b \<and> y1 b < y2 b)"

definition in_box :: "pixman_box32 \<Rightarrow> int \<times> int \<Rightarrow> bool" where
  "in_box b p = (x1 b \<le> fst p \<and> fst p < x2 b \<and> y1 b \<le> snd p \<and> snd p < y2 b)"

definition pixels :: "pixman_region32 \<Rightarrow> (int \<times> int) set" where
  "pixels r = {p. \<exists>b \<in> set r. in_box b p}"

definition rect_box :: "int \<Rightarrow> int \<Rightarrow> int \<Rightarrow> int \<Rightarrow> pixman_box32" where
  "rect_box x y w h = \<lparr>x1 = x, y1 = y, x2 = x + w, y2 = y + h\<rparr>"

text \<open>The pixels of the rectangle \<open>(x, y, w, h)\<close>.\<close>

definition rect_pixels :: "int \<Rightarrow> int \<Rightarrow> int \<Rightarrow> int \<Rightarrow> (int \<times> int) set" where
  "rect_pixels x y w h = {p. x \<le> fst p \<and> fst p < x + w \<and> y \<le> snd p \<and> snd p < y + h}"

definition pixman_region32_init :: pixman_region32 where
  "pixman_region32_init = []"

definition pixman_region32_init_rect :: "int \<Rightarrow> int \<Rightarrow> int \<Rightarrow> int \<Rightarrow> pixman_region32" where
  "pixman_region32_init_rect x y w h =
     (if good_rect (rect_box x y w h) then [rect_box x y w h] else [])"

definition pixman_region32_union :: "pixman_region32 \<Rightarrow> pixman_region32 \<Rightarrow> pixman_region32" where
  "pixman_region32_union a b = a @ b"

definition pixman_region32_union_rect ::
  "pixman_region32 \<Rightarrow> int \<Rightarrow> int \<Rightarrow> int \<Rightarrow> int \<Rightarrow> pixman_region32" where
  "pixman_region32_union_rect src x y w h =
     (if good_rect (rect_box x y w h) then pixman_region32_union src [rect_box x y w h]
      else src)"

definition box_intersect :: "pixman_box32 \<Rightarrow> pixman_box32 \<Rightarrow> pixman_box32" where
  "box_intersect a b =
     \<lparr>x1 = max (x1 a) (x1 b), y1 = max (y1 a) (y1 b),
      x2 = min (x2 a) (x2 b), y2 = min (y2 a) (y2 b)\<rparr>"

definition pixman_region32_intersect ::
  "pixman_region32 \<Rightarrow> pixman_region32 \<Rightarrow> pixman_region32" where
  "pixman_region32_intersect a b =
     filter good_rect (concat (map (\<lambda>p. map (box_intersect p) b) a))"

definition pixman_region32_intersect_rect ::
  "pixman_region32 \<Rightarrow> int \<Rightarrow> int \<Rightarrow> int \<Rightarrow> int \<Rightarrow> pixman_region32" where
  "pixman_region32_intersect_rect src x y w h =
     pixman_region32_intersect src [rect_box x y w h]"

text \<open>What is left of box \<open>a\<close> outside box \<open>b\<close>: the bands above and below \<open>b\<close>, and the
  pieces to its left and right inside \<open>b\<close>'s band.\<close>

definition box_subtract :: "pixman_box32 \<Rightarrow> pixman_box32 \<Rightarrow> pixman_box32 list" where
  "box_subtract a b = filter good_rect
     [\<lparr>x1 = x1 a, y1 = y1 a, x2 = x2 a, y2 = min (y2 a) (y1 b)\<rparr>,
      \<lparr>x1 = x1 a, y1 = max (y1 a) (y2 b), x2 = x2 a, y2 = y2 a\<rparr>,
      \<lparr>x1 = x1 a, y1 = max (y1 a) (y1 b), x2 = min (x2 a) (x1 b), y2 = min (y2 a) (y2 b)\<rparr>,
      \<lparr>x1 = max (x1 a) (x2 b), y1 = max (y1 a) (y1 b), x2 = x2 a, y2 = min (y2 a) (y2 b)\<rparr>]"

definition region_subtract_box :: "pixman_region32 \<Rightarrow> pixman_box32 \<Rightarrow> pixman_region32" where
  "region_subtract_box a q = concat (map (\<lambda>p. box_subtract p q) a)"

definition pixman_region32_subtract ::
  "pixman_region32 \<Rightarrow> pixman_region32 \<Rightarrow> pixman_region32" where
  "pixman_region32_subtract a b = foldl region_subtract_box a b"

definition pixman_region32_translate :: "pixman_region32 \<Rightarrow> int \<Rightarrow> int \<Rightarrow> pixman_region32" where
  "pixman_region32_translate r dx dy =
     map (\<lambda>b. \<lparr>x1 = x1 b + dx, y1 = y1 b + dy, x2 = x2 b + dx, y2 = y2 b + dy\<rparr>) r"

definition pixman_region32_not_empty :: "pixman_region32 \<Rightarrow> bool" where
  "pixman_region32_not_empty r = list_ex good_rect r"

definition pixman_region32_rectangles :: "pixman_region32 \<Rightarrow> pixman_box32 list" where
  "pixman_region32_rectangles r = filter good_rect r"

definition wlr_box_from_pixman_box :: "pixman_box32 \<Rightarrow> wlr_box" where
  "wlr_box_from_pixman_box b =
     \<lparr>box_x = x1 b, box_y = y1 b, box_width = x2 b - x1 b, box_height = y2 b - y1 b\<rparr>"

section \<open>The render manager's data\<close>

text \<open>
  \<^verbatim>\<open>wf_framebuffer_base\<close>: the GL framebuffer and texture ids and the size they were
  allocated for.  The id \<open>0\<close> is the display itself.
\<close>

record wf_framebuffer_base =
  fb :: nat
  tex :: nat
  viewport_width :: int
  viewport_height :: int

text \<open>
  \<^verbatim>\<open>wf_framebuffer\<close>, the descriptor handed to renderers: the buffer ids and viewport
  size and the geometry.  (Its transform and matrix are carried along unchanged by the
  manager and are left out.)
\<close>

record wf_framebuffer =
  base :: wf_framebuffer_base
  geometry :: wlr_box

text \<open>What a damaged-surface record draws: a surface, or a whole snapshotted view.\<close>

datatype render_target = Surface nat | View nat

text \<open>Hooks (\<^verbatim>\<open>effect_hook_t*\<close>, \<^verbatim>\<open>post_hook_t*\<close>, \<^verbatim>\<open>render_hook_t\<close>) are known by their address.\<close>

type_synonym hook_ptr = nat

datatype wf_output_effect_type =
  WF_OUTPUT_EFFECT_PRE | WF_OUTPUT_EFFECT_OVERLAY | WF_OUTPUT_EFFECT_POST

text \<open>\<^verbatim>\<open>render_manager::wf_post_effect\<close>, a heap object; \<open>addr\<close> is its address, by which
  \<^verbatim>\<open>_rem_post\<close> recognises it.\<close>

record wf_post_effect =
  addr :: nat
  hook :: hook_ptr
  to_remove :: bool
  buffer :: wf_framebuffer_base

record wf_workspace_stream =
  stream_ws :: "int \<times> int"
  stream_buffer :: wf_framebuffer_base
  running :: bool
  scale_x :: rat
  scale_y :: rat

datatype layer_mask = WF_ALL_LAYERS | WF_MIDDLE_LAYERS | WF_BELOW_ABOVE_LAYERS

text \<open>
  Everything the manager does to its collaborators (the wlroots damage manager and output,
  the event loop, the GL context, the surfaces, the signal listeners) is recorded, in
  order, in a trace of events.
\<close>

datatype event =
    Wlr_output_damage_add_box wlr_box
  | Wlr_output_damage_add pixman_region32
  | Wlr_output_schedule_frame
  | Wlr_output_damage_make_current bool
  | Wlr_output_damage_swap_buffers pixman_region32
  | Wlr_output_render_software_cursors pixman_region32
  | Add_idle_redraw
  | Add_idle_damage
  | Emit_signal string
  | Emit_stream_signal string "pixman_region32 option" wf_framebuffer
  | Bind_output
  | Unbind_output
  | Render_begin
  | Render_end
  | Clear_yellow
  | Clear_black
  | Scissor_clear_black wlr_box
  | Fb_allocate wf_framebuffer_base int int
  | Fb_release wf_framebuffer_base
  | Effect_call hook_ptr
  | Renderer_call hook_ptr wf_framebuffer
  | Post_call hook_ptr wf_framebuffer_base wf_framebuffer_base
  | Render_fb render_target pixman_region32 wf_framebuffer
  | Icon_set_output nat bool
  | Send_frame_done nat

record render_manager =
  default_buffer :: wf_framebuffer_base
  output_damage_frame_damage :: pixman_region32
  frame_damage :: pixman_region32
  output_streams :: "int \<times> int \<Rightarrow> wf_workspace_stream option"
  current_ws_stream :: "(int \<times> int) option"
  idle_redraw_source :: bool
  idle_damage_source :: bool
  constant_redraw :: int
  output_inhibit :: int
  renderer :: "hook_ptr option"
  effects :: "wf_output_effect_type \<Rightarrow> hook_ptr list"
  post_effects :: "wf_post_effect list"
  trace :: "event list"

text \<open>The calls a plugin's hook can make on the manager (its public operations).\<close>

datatype api_call =
    Call_damage_box wlr_box
  | Call_damage_region "pixman_region32 option"
  | Call_add_effect hook_ptr wf_output_effect_type
  | Call_rem_effect hook_ptr wf_output_effect_type
  | Call_add_post hook_ptr
  | Call_rem_post hook_ptr
  | Call_set_renderer hook_ptr
  | Call_reset_renderer
  | Call_auto_redraw bool
  | Call_add_inhibit bool
  | Call_schedule_redraw

subsection \<open>The scene graph, as the manager sees it\<close>

text \<open>
  A \<^verbatim>\<open>wayfire_surface_t\<close> is an object with virtual methods; the manager reads
  \<^verbatim>\<open>is_mapped()\<close>, \<^verbatim>\<open>get_output_geometry()\<close>, \<^verbatim>\<open>alpha\<close> and calls
  \<^verbatim>\<open>subtract_opaque(region, x, y)\<close>, which returns the region with the surface's opaque
  part (placed at \<open>(x, y)\<close>) taken out.  The method is kept as a field, as a virtual method
  is.  \<^verbatim>\<open>alpha\<close> is a \<^verbatim>\<open>float\<close> in the source; the comparison with \<^verbatim>\<open>0.999f\<close> is the only
  use made of it.
\<close>

record wayfire_surface =
  surface_id :: nat
  is_mapped :: bool
  get_output_geometry :: wlr_box
  alpha :: rat
  subtract_opaque :: "pixman_region32 \<Rightarrow> int \<Rightarrow> int \<Rightarrow> pixman_region32"

text \<open>A view: \<^verbatim>\<open>for_each_surface\<close> enumerates \<open>view_surfaces\<close>, each with its position.\<close>

record wayfire_view =
  view_id :: nat
  view_is_mapped :: bool
  is_visible :: bool
  is_shell_view :: bool
  has_transformer :: bool
  get_bounding_box :: wlr_box
  view_surfaces :: "(wayfire_surface \<times> int \<times> int) list"

record drag_icon =
  icon_id :: nat
  icon_is_mapped :: bool
  icon_surfaces :: "(wayfire_surface \<times> int \<times> int) list"

text \<open>
  What a call reads from outside the manager: the output, the workspace manager, the
  input manager, the runtime configuration, and the code of this repository that the
  manager calls but that is not part of the render manager (the framebuffer helper, the
  box scaling).  The results of calls into GL and wlroots may depend on everything that
  happened before, so they take the trace.
\<close>

record outside =
  destroyed :: bool
  handle_width :: int
  handle_height :: int
  handle_scale :: rat
  transformed_resolution :: "int \<times> int"
  get_relative_geometry :: wlr_box
  get_current_workspace :: "int \<times> int"
  get_views_on_workspace :: "int \<times> int \<Rightarrow> layer_mask \<Rightarrow> wayfire_view list"
  for_each_view :: "layer_mask \<Rightarrow> wayfire_view list"
  drag_icons :: "drag_icon list"
  vwidth :: int
  vheight :: int
  no_damage_track :: bool
  damage_debug :: bool
  get_output_box_from_box :: "wlr_box \<Rightarrow> rat \<Rightarrow> wlr_box"
  new_framebuffer_base :: wf_framebuffer_base
  new_workspace_stream :: wf_workspace_stream
  allocate :: "event list \<Rightarrow> wf_framebuffer_base \<Rightarrow> int \<Rightarrow> int \<Rightarrow> wf_framebuffer_base"
  release :: "event list \<Rightarrow> wf_framebuffer_base \<Rightarrow> wf_framebuffer_base"
  reset :: "wf_framebuffer_base \<Rightarrow> wf_framebuffer_base"
  wlr_output_damage_make_current ::
    "event list \<Rightarrow> pixman_region32 \<Rightarrow> bool \<times> bool \<times> pixman_region32"
  hook_body :: "hook_ptr \<Rightarrow> render_manager \<Rightarrow> api_call list"

section \<open>The damage accumulator (\<^verbatim>\<open>wf_output_damage\<close>)\<close>

text \<open>
  The three overloads of \<^verbatim>\<open>wf_output_damage::add\<close> are \<open>output_damage_add\<close> (no argument:
  the whole output), \<open>output_damage_add_box\<close> and \<open>output_damage_add_region\<close>; the
  accumulator's \<^verbatim>\<open>frame_damage\<close> is the manager's field \<open>output_damage_frame_damage\<close>.
\<close>

definition log_event :: "event \<Rightarrow> render_manager \<Rightarrow> render_manager" where
  "log_event e s = s\<lparr>trace := trace s @ [e]\<rparr>"

definition schedule_repaint :: "render_manager \<Rightarrow> render_manager" where
  "schedule_repaint s = log_event Wlr_output_schedule_frame s"

definition output_damage_add_box :: "wlr_box \<Rightarrow> render_manager \<Rightarrow> render_manager" where
  "output_damage_add_box box s =
     schedule_repaint (log_event (Wlr_output_damage_add_box box)
       (s\<lparr>output_damage_frame_damage :=
            pixman_region32_union_rect (output_damage_frame_damage s)
              (box_x box) (box_y box) (box_width box) (box_height box)\<rparr>))"

definition output_damage_add :: "outside \<Rightarrow> render_manager \<Rightarrow> render_manager" where
  "output_damage_add out s =
     (case transformed_resolution out of (w, h) \<Rightarrow>
        output_damage_add_box \<lparr>box_x = 0, box_y = 0, box_width = w, box_height = h\<rparr> s)"

definition output_damage_add_region :: "pixman_region32 \<Rightarrow> render_manager \<Rightarrow> render_manager" where
  "output_damage_add_region region s =
     schedule_repaint (log_event (Wlr_output_damage_add region)
       (s\<lparr>output_damage_frame_damage :=
            pixman_region32_union (output_damage_frame_damage s) region\<rparr>))"

text \<open>
  \<^verbatim>\<open>make_current(out_damage, need_swap)\<close>: the two reference parameters come back in the
  result, after the returned flag.  wlroots' answer is \<open>wlr_output_damage_make_current\<close>:
  the flag, \<^verbatim>\<open>need_swap\<close> and what it left in \<^verbatim>\<open>out_damage\<close>.
\<close>

definition make_current ::
  "outside \<Rightarrow> pixman_region32 \<Rightarrow> render_manager
     \<Rightarrow> bool \<times> bool \<times> pixman_region32 \<times> render_manager" where
  "make_current out out_damage s =
     (case wlr_output_damage_make_current out (trace s) out_damage of
        (r, need_swap, out_damage1) \<Rightarrow>
          let s1 = log_event (Wlr_output_damage_make_current r) s in
          if r then
            (case transformed_resolution out of (w, h) \<Rightarrow>
               let regular = pixman_region32_init_rect 0 0 w h;
                   fd = pixman_region32_subtract (output_damage_frame_damage s1) regular;
                   out_damage2 = pixman_region32_union out_damage1 fd;
                   out_damage3 = (if no_damage_track out
                                  then pixman_region32_union out_damage2 regular
                                  else out_damage2)
               in (r, need_swap, out_damage3, s1\<lparr>output_damage_frame_damage := fd\<rparr>))
          else (r, need_swap, out_damage1, s1))"

definition swap_buffers :: "pixman_region32 \<Rightarrow> render_manager \<Rightarrow> render_manager" where
  "swap_buffers swap_damage s =
     (log_event (Wlr_output_damage_swap_buffers swap_damage) s)
       \<lparr>output_damage_frame_damage := []\<rparr>"

section \<open>Damage, redraw scheduling, inhibit\<close>

text \<open>\<^verbatim>\<open>damage(const wlr_box& box)\<close>.\<close>

definition damage_box :: "outside \<Rightarrow> wlr_box \<Rightarrow> render_manager \<Rightarrow> render_manager" where
  "damage_box out box s = (if \<not> destroyed out then output_damage_add_box box s else s)"

text \<open>\<^verbatim>\<open>damage(pixman_region32_t *region)\<close>; \<open>None\<close> is the null pointer.\<close>

definition damage :: "outside \<Rightarrow> pixman_region32 option \<Rightarrow> render_manager \<Rightarrow> render_manager" where
  "damage out region s =
     (if destroyed out then s
      else case region of
             Some r \<Rightarrow> output_damage_add_region r s
           | None \<Rightarrow> output_damage_add out s)"

definition get_target_framebuffer :: "outside \<Rightarrow> render_manager \<Rightarrow> wf_framebuffer" where
  "get_target_framebuffer out s =
     \<lparr>base = \<lparr>fb = fb (default_buffer s), tex = tex (default_buffer s),
               viewport_width = handle_width out, viewport_height = handle_height out\<rparr>,
      geometry = get_relative_geometry out\<rparr>"

definition schedule_redraw :: "render_manager \<Rightarrow> render_manager" where
  "schedule_redraw s =
     (if \<not> idle_redraw_source s
      then (log_event Add_idle_redraw s)\<lparr>idle_redraw_source := True\<rparr>
      else s)"

text \<open>The idle callback queued by \<open>schedule_redraw\<close>.\<close>

definition redraw_idle_cb :: "render_manager \<Rightarrow> render_manager" where
  "redraw_idle_cb s = (log_event Wlr_output_schedule_frame s)\<lparr>idle_redraw_source := False\<rparr>"

definition auto_redraw :: "bool \<Rightarrow> render_manager \<Rightarrow> render_manager" where
  "auto_redraw redraw s =
     (let s1 = s\<lparr>constant_redraw := constant_redraw s + (if redraw then 1 else - 1)\<rparr> in
      if constant_redraw s1 > 1 then s1
      else if constant_redraw s1 < 0 then s1\<lparr>constant_redraw := 0\<rparr>
      else schedule_redraw s1)"

definition add_inhibit :: "outside \<Rightarrow> bool \<Rightarrow> render_manager \<Rightarrow> render_manager" where
  "add_inhibit out add s =
     (let s1 = s\<lparr>output_inhibit := output_inhibit s + (if add then 1 else - 1)\<rparr> in
      if output_inhibit s1 = 0
      then log_event (Emit_signal ''start-rendering'') (damage out None s1)
      else s1)"

definition damage_idle_cb :: "outside \<Rightarrow> render_manager \<Rightarrow> render_manager" where
  "damage_idle_cb out s = (damage out None s)\<lparr>idle_damage_source := False\<rparr>"

definition reset_renderer :: "render_manager \<Rightarrow> render_manager" where
  "reset_renderer s =
     (let s1 = s\<lparr>renderer := None\<rparr> in
      if \<not> idle_damage_source s1
      then (log_event Add_idle_damage s1)\<lparr>idle_damage_source := True\<rparr>
      else s1)"

definition set_renderer :: "hook_ptr \<Rightarrow> render_manager \<Rightarrow> render_manager" where
  "set_renderer rh s = s\<lparr>renderer := Some rh\<rparr>"

section \<open>Workspace damage\<close>

text \<open>
  \<^verbatim>\<open>get_ws_damage(ws, out_damage)\<close> writes through the pointer \<^verbatim>\<open>out_damage\<close>.  The pointer
  is either the manager's own \<^verbatim>\<open>frame_damage\<close> or a region of the caller's; the memory
  the call works on is the manager together with the caller's region (\<open>None\<close>: not a
  valid region, \<^verbatim>\<open>pixman_region32_selfcheck\<close> fails).
\<close>

datatype region_ptr = Manager_frame_damage | Caller_region

type_synonym region_memory = "render_manager \<times> pixman_region32 option"

definition read_region :: "region_ptr \<Rightarrow> region_memory \<Rightarrow> pixman_region32 option" where
  "read_region p m =
     (case p of Manager_frame_damage \<Rightarrow> Some (frame_damage (fst m)) | Caller_region \<Rightarrow> snd m)"

definition write_region :: "region_ptr \<Rightarrow> pixman_region32 \<Rightarrow> region_memory \<Rightarrow> region_memory" where
  "write_region p r m =
     (case p of
        Manager_frame_damage \<Rightarrow> ((fst m)\<lparr>frame_damage := r\<rparr>, snd m)
      | Caller_region \<Rightarrow> (fst m, Some r))"

definition pixman_region32_selfcheck :: "pixman_region32 option \<Rightarrow> bool" where
  "pixman_region32_selfcheck r = (r \<noteq> None)"

definition get_ws_damage ::
  "outside \<Rightarrow> int \<times> int \<Rightarrow> region_ptr \<Rightarrow> region_memory \<Rightarrow> region_memory" where
  "get_ws_damage out ws out_damage m =
     (case ws of (vx, vy) \<Rightarrow>
      case get_current_workspace out of (cx, cy) \<Rightarrow>
      case transformed_resolution out of (sw, sh) \<Rightarrow>
        let m1 = (if \<not> pixman_region32_selfcheck (read_region out_damage m)
                  then write_region out_damage pixman_region32_init m else m);
            m2 = write_region out_damage
                   (pixman_region32_intersect_rect (frame_damage (fst m1))
                      ((vx - cx) * sw) ((vy - cy) * sh) sw sh) m1
        in (case read_region out_damage m2 of
              Some r \<Rightarrow>
                write_region out_damage
                  (pixman_region32_translate r ((cx - vx) * sw) ((cy - vy) * sh)) m2
            | None \<Rightarrow> m2))"

text \<open>The derivation as the specification words it: intersect the frame damage with the
  workspace's rectangle, then translate.\<close>

definition ws_damage_spec ::
  "int \<times> int \<Rightarrow> int \<times> int \<Rightarrow> int \<times> int \<Rightarrow> pixman_region32 \<Rightarrow> pixman_region32" where
  "ws_damage_spec v c res fdamage =
     pixman_region32_translate
       (pixman_region32_intersect_rect fdamage
          ((fst v - fst c) * fst res) ((snd v - snd c) * snd res) (fst res) (snd res))
       ((fst c - fst v) * fst res) ((snd c - snd v) * snd res)"

section \<open>Effect hooks and the post-effect chain\<close>

definition add_effect ::
  "hook_ptr \<Rightarrow> wf_output_effect_type \<Rightarrow> render_manager \<Rightarrow> render_manager" where
  "add_effect hk type s = s\<lparr>effects := (effects s)(type := effects s type @ [hk])\<rparr>"

definition rem_effect ::
  "hook_ptr \<Rightarrow> wf_output_effect_type \<Rightarrow> render_manager \<Rightarrow> render_manager" where
  "rem_effect hk type s =
     s\<lparr>effects := (effects s)(type := filter (\<lambda>e. e \<noteq> hk) (effects s type))\<rparr>"

text \<open>\<^verbatim>\<open>buffer->allocate(w, h)\<close> and \<^verbatim>\<open>buffer->release()\<close>: the new value of the buffer, and
  the call recorded.\<close>

definition buffer_allocate ::
  "outside \<Rightarrow> wf_framebuffer_base \<Rightarrow> render_manager \<Rightarrow> wf_framebuffer_base \<times> render_manager" where
  "buffer_allocate out b s =
     (allocate out (trace s) b (handle_width out) (handle_height out),
      log_event (Fb_allocate b (handle_width out) (handle_height out)) s)"

definition buffer_release ::
  "outside \<Rightarrow> wf_framebuffer_base \<Rightarrow> render_manager \<Rightarrow> wf_framebuffer_base \<times> render_manager" where
  "buffer_release out b s = (release out (trace s) b, log_event (Fb_release b) s)"

text \<open>
  \<^verbatim>\<open>auto buffer = &default_buffer; if (!post_effects.empty()) buffer = &post_effects.back()->buffer;\<close>
  The buffer the pointer reads, and a write through it.
\<close>

definition last_buffer :: "render_manager \<Rightarrow> wf_framebuffer_base" where
  "last_buffer s =
     (if post_effects s = [] then default_buffer s else buffer (last (post_effects s)))"

definition set_last_buffer :: "wf_framebuffer_base \<Rightarrow> render_manager \<Rightarrow> render_manager" where
  "set_last_buffer b s =
     (if post_effects s = [] then s\<lparr>default_buffer := b\<rparr>
      else s\<lparr>post_effects :=
               butlast (post_effects s) @ [(last (post_effects s))\<lparr>buffer := b\<rparr>]\<rparr>)"

text \<open>\<^verbatim>\<open>new wf_post_effect\<close>: an address no live entry has.\<close>

definition new_addr :: "wf_post_effect list \<Rightarrow> nat" where
  "new_addr ps = Suc (fold max (map addr ps) 0)"

definition add_post :: "outside \<Rightarrow> hook_ptr \<Rightarrow> render_manager \<Rightarrow> render_manager" where
  "add_post out hk s =
     (case buffer_allocate out (reset out (last_buffer s)) s of (b, s1) \<Rightarrow>
      let s2 = damage out None (set_last_buffer b s1);
          zero = (new_framebuffer_base out)\<lparr>fb := 0, tex := 0\<rparr>
      in case buffer_allocate out zero s2 of (nb, s3) \<Rightarrow>
           s3\<lparr>post_effects := post_effects s3 @
                 [\<lparr>addr = new_addr (post_effects s3), hook = hk, to_remove = False,
                   buffer = nb\<rparr>]\<rparr>)"

text \<open>The first loop of \<^verbatim>\<open>_rem_post\<close>: every entry at address \<open>post\<close> is released and erased.\<close>

fun erase_post ::
  "outside \<Rightarrow> nat \<Rightarrow> wf_post_effect list \<Rightarrow> render_manager
     \<Rightarrow> wf_post_effect list \<times> render_manager" where
  "erase_post out post [] s = ([], s)"
| "erase_post out post (e # es) s =
     (if addr e = post
      then erase_post out post es (snd (buffer_release out (buffer e) s))
      else case erase_post out post es s of (es', s') \<Rightarrow> (e # es', s'))"

text \<open>\<^verbatim>\<open>_rem_post(post)\<close>: the entry is erased, the buffer that is last now is released
  and given the display's ids if its framebuffer id is not 0, and the output is damaged.\<close>

definition rem_post_internal :: "outside \<Rightarrow> nat \<Rightarrow> render_manager \<Rightarrow> render_manager" where
  "rem_post_internal out post s =
     (case erase_post out post (post_effects s) s of (es, s1) \<Rightarrow>
      let s2 = s1\<lparr>post_effects := es\<rparr>;
          s3 = (if fb (last_buffer s2) \<noteq> 0
                then case buffer_release out (last_buffer s2) s2 of (b, s') \<Rightarrow>
                       set_last_buffer (b\<lparr>fb := 0, tex := 0\<rparr>) s'
                else s2)
      in damage out None s3)"

definition cleanup_post_hooks :: "outside \<Rightarrow> render_manager \<Rightarrow> render_manager" where
  "cleanup_post_hooks out s =
     fold (rem_post_internal out) (map addr (filter to_remove (post_effects s))) s"

definition rem_post :: "outside \<Rightarrow> hook_ptr \<Rightarrow> render_manager \<Rightarrow> render_manager" where
  "rem_post out hk s =
     damage out None
       (s\<lparr>post_effects :=
            map (\<lambda>e. if hook e = hk then e\<lparr>to_remove := True\<rparr> else e) (post_effects s)\<rparr>)"

text \<open>
  A hook is plugin code.  What it does to the manager is a sequence of calls of the
  manager's public operations, which may depend on the state it finds; \<open>hook_body\<close>
  gives the sequence.  (A hook does not call \<^verbatim>\<open>paint\<close>: a frame is painted from the
  display's frame event only.)
\<close>

definition exec_api :: "outside \<Rightarrow> api_call \<Rightarrow> render_manager \<Rightarrow> render_manager" where
  "exec_api out c s =
     (case c of
        Call_damage_box box \<Rightarrow> damage_box out box s
      | Call_damage_region r \<Rightarrow> damage out r s
      | Call_add_effect hk type \<Rightarrow> add_effect hk type s
      | Call_rem_effect hk type \<Rightarrow> rem_effect hk type s
      | Call_add_post hk \<Rightarrow> add_post out hk s
      | Call_rem_post hk \<Rightarrow> rem_post out hk s
      | Call_set_renderer hk \<Rightarrow> set_renderer hk s
      | Call_reset_renderer \<Rightarrow> reset_renderer s
      | Call_auto_redraw b \<Rightarrow> auto_redraw b s
      | Call_add_inhibit b \<Rightarrow> add_inhibit out b s
      | Call_schedule_redraw \<Rightarrow> schedule_redraw s)"

definition call_hook :: "outside \<Rightarrow> hook_ptr \<Rightarrow> render_manager \<Rightarrow> render_manager" where
  "call_hook out hk s = fold (exec_api out) (hook_body out hk s) s"

text \<open>
  \<^verbatim>\<open>run_effects(container)\<close>: the container is copied into \<^verbatim>\<open>active_effects\<close>, then every
  hook of the copy is called.
\<close>

fun run_active_effects :: "outside \<Rightarrow> hook_ptr list \<Rightarrow> render_manager \<Rightarrow> render_manager" where
  "run_active_effects out [] s = s"
| "run_active_effects out (effect # rest) s =
     run_active_effects out rest (call_hook out effect (log_event (Effect_call effect) s))"

definition run_effects ::
  "outside \<Rightarrow> wf_output_effect_type \<Rightarrow> render_manager \<Rightarrow> render_manager" where
  "run_effects out type s =
     (let active_effects = effects s type in run_active_effects out active_effects s)"

section \<open>Workspace streams\<close>

text \<open>\<^verbatim>\<open>damaged_surface_t\<close>: what to draw, the framebuffer coordinates of its view, and the
  damage it is drawn with.\<close>

record damaged_surface_t =
  ds_surface :: render_target
  ds_x :: int
  ds_y :: int
  ds_damage :: pixman_region32

text \<open>The two locals the scheduling lambdas capture by reference: \<^verbatim>\<open>ws_damage\<close> and
  \<^verbatim>\<open>to_render\<close>.\<close>

type_synonym scheduled = "pixman_region32 \<times> damaged_surface_t list"

definition box_region :: "wlr_box \<Rightarrow> pixman_region32" where
  "box_region b = pixman_region32_init_rect (box_x b) (box_y b) (box_width b) (box_height b)"

definition schedule_render_snapshotted_view ::
  "outside \<Rightarrow> wayfire_view \<Rightarrow> int \<Rightarrow> int \<Rightarrow> scheduled \<Rightarrow> scheduled" where
  "schedule_render_snapshotted_view out view view_dx view_dy st =
     (case st of (ws_damage, to_render) \<Rightarrow>
        let bbox0 = get_bounding_box view;
            bbox1 = bbox0\<lparr>box_x := box_x bbox0 - view_dx, box_y := box_y bbox0 - view_dy\<rparr>;
            bbox = get_output_box_from_box out bbox1 (handle_scale out);
            dmg = pixman_region32_intersect (box_region bbox) ws_damage
        in if pixman_region32_not_empty dmg
           then (ws_damage,
                 to_render @ [\<lparr>ds_surface = View (view_id view), ds_x = view_dx, ds_y = view_dy,
                               ds_damage = dmg\<rparr>])
           else (ws_damage, to_render))"

definition schedule_render_surface ::
  "outside \<Rightarrow> wayfire_surface \<Rightarrow> int \<Rightarrow> int \<Rightarrow> int \<Rightarrow> int \<Rightarrow> scheduled \<Rightarrow> scheduled" where
  "schedule_render_surface out surface x y view_dx view_dy st =
     (case st of (ws_damage, to_render) \<Rightarrow>
        if \<not> is_mapped surface then (ws_damage, to_render)
        else if \<not> pixman_region32_not_empty ws_damage then (ws_damage, to_render)
        else
          let lx = x - view_dx;
              ly = y - view_dy;
              obox0 = (get_output_geometry surface)\<lparr>box_x := lx, box_y := ly\<rparr>;
              obox = get_output_box_from_box out obox0 (handle_scale out);
              dmg = pixman_region32_intersect (box_region obox) ws_damage
          in if pixman_region32_not_empty dmg
             then ((if alpha surface \<ge> 999 / 1000
                    then subtract_opaque surface ws_damage lx ly else ws_damage),
                   to_render @ [\<lparr>ds_surface = Surface (surface_id surface), ds_x = view_dx,
                                 ds_y = view_dy, ds_damage = dmg\<rparr>])
             else (ws_damage, to_render))"

text \<open>\<^verbatim>\<open>for_each_surface\<close> with a lambda that schedules every surface it is given.\<close>

definition schedule_surfaces ::
  "outside \<Rightarrow> (wayfire_surface \<times> int \<times> int) list \<Rightarrow> int \<Rightarrow> int \<Rightarrow> scheduled \<Rightarrow> scheduled" where
  "schedule_surfaces out surfaces view_dx view_dy st =
     fold (\<lambda>(surface, x, y). schedule_render_surface out surface x y view_dx view_dy)
       surfaces st"

text \<open>The loop over \<^verbatim>\<open>core->input->drag_icons\<close> before the views.\<close>

fun drag_icons_loop ::
  "outside \<Rightarrow> drag_icon list \<Rightarrow> scheduled \<Rightarrow> render_manager \<Rightarrow> scheduled \<times> render_manager" where
  "drag_icons_loop out [] st s = (st, s)"
| "drag_icons_loop out (icon # rest) st s =
     (if \<not> icon_is_mapped icon then drag_icons_loop out rest st s
      else drag_icons_loop out rest
             (schedule_surfaces out (icon_surfaces icon) 0 0 st)
             (log_event (Icon_set_output (icon_id icon) True) s))"

text \<open>\<^verbatim>\<open>while (it != views.end() && pixman_region32_not_empty(&ws_damage))\<close>.\<close>

fun views_loop :: "outside \<Rightarrow> int \<Rightarrow> int \<Rightarrow> wayfire_view list \<Rightarrow> scheduled \<Rightarrow> scheduled" where
  "views_loop out dx dy [] st = st"
| "views_loop out dx dy (view # rest) st =
     (if \<not> pixman_region32_not_empty (fst st) then st
      else if \<not> is_visible view then views_loop out dx dy rest st
      else
        let view_dx = (if \<not> is_shell_view view then dx else 0);
            view_dy = (if \<not> is_shell_view view then dy else 0)
        in if has_transformer view \<or> \<not> view_is_mapped view
           then views_loop out dx dy rest
                  (schedule_render_snapshotted_view out view view_dx view_dy st)
           else views_loop out dx dy rest
                  (schedule_surfaces out (view_surfaces view) view_dx view_dy st))"

text \<open>
  The drawing loop runs a reverse iterator from \<^verbatim>\<open>to_render.rbegin()\<close> to
  \<^verbatim>\<open>to_render.rend()\<close>; after \<open>i\<close> increments it stands on element
  \<open>length to_render - 1 - i\<close>.  Every step moves the framebuffer's geometry to the record's
  coordinates and calls the surface's \<^verbatim>\<open>render_fb\<close> with the record's damage.
\<close>

function render_loop ::
  "damaged_surface_t list \<Rightarrow> nat \<Rightarrow> wf_framebuffer \<Rightarrow> render_manager
     \<Rightarrow> wf_framebuffer \<times> render_manager" where
  "render_loop to_render i target s =
     (if i < length to_render
      then let ds = to_render ! (length to_render - 1 - i);
               target' = target\<lparr>geometry := (geometry target)\<lparr>box_x := ds_x ds, box_y := ds_y ds\<rparr>\<rparr>
           in render_loop to_render (Suc i) target'
                (log_event (Render_fb (ds_surface ds) (ds_damage ds) target') s)
      else (target, s))"
  by pat_completeness auto
termination
  by (relation "measure (\<lambda>(to_render, i, target, s). length to_render - i)") auto

declare render_loop.simps [simp del]

definition get_scaling :: "rat \<Rightarrow> rat \<Rightarrow> rat" where
  "get_scaling current_resolution target_resolution =
     max (current_resolution / target_resolution) (target_resolution / current_resolution)"

text \<open>
  \<^verbatim>\<open>workspace_stream_update\<close> is long; its three self-contained stretches are given
  names.  First the framebuffer the stream draws into (lines 610 to 612): the target
  framebuffer with the stream buffer's ids, or the default buffer's where they are 0.
\<close>

definition stream_target ::
  "outside \<Rightarrow> wf_framebuffer_base \<Rightarrow> render_manager \<Rightarrow> wf_framebuffer" where
  "stream_target out sb s =
     (let target = get_target_framebuffer out s
      in target\<lparr>base := (base target)
           \<lparr>fb := (if fb sb = 0 then fb (default_buffer s) else fb sb),
            tex := (if tex sb = 0 then tex (default_buffer s) else tex sb)\<rparr>\<rparr>)"

text \<open>Lines 699 to 747: the drag icons, when there is no custom renderer, and then the
  views, front to back, are scheduled against \<^verbatim>\<open>ws_damage\<close>.\<close>

definition stream_schedule ::
  "outside \<Rightarrow> int \<Rightarrow> int \<Rightarrow> wayfire_view list \<Rightarrow> pixman_region32 \<Rightarrow> render_manager
     \<Rightarrow> scheduled \<times> render_manager" where
  "stream_schedule out dx dy views ws_damage s =
     (case (if renderer s = None
            then drag_icons_loop out (drag_icons out) (ws_damage, []) s
            else ((ws_damage, []), s)) of
        (st, s1) \<Rightarrow> (views_loop out dx dy views st, s1))"

text \<open>Lines 756 to 795: what is left of \<^verbatim>\<open>ws_damage\<close> is cleared to black, the records
  are drawn back to front, the drag icons are released and the post signal is emitted.\<close>

definition stream_draw ::
  "outside \<Rightarrow> wf_framebuffer \<Rightarrow> pixman_region32 \<Rightarrow> damaged_surface_t list \<Rightarrow> render_manager
     \<Rightarrow> render_manager" where
  "stream_draw out target ws_damage to_render s =
     (let s1 = log_event Render_end
                 (fold (\<lambda>r. log_event (Scissor_clear_black (wlr_box_from_pixman_box r)))
                    (pixman_region32_rectangles ws_damage) (log_event Render_begin s))
      in case render_loop to_render 0 target s1 of
           (target', s2) \<Rightarrow>
             let s3 = (if renderer s2 = None
                       then fold (\<lambda>icon. if icon_is_mapped icon
                                           then log_event (Icon_set_output (icon_id icon) False)
                                           else id)
                              (drag_icons out) s2
                       else s2)
             in log_event (Emit_stream_signal ''workspace-stream-post'' None target') s3)"

text \<open>
  \<^verbatim>\<open>workspace_stream_update(stream, scale_x, scale_y)\<close>.  A stream is named by its place
  \<open>k\<close> in the grid \<^verbatim>\<open>output_streams\<close>; a place outside the grid holds no stream.
\<close>

definition workspace_stream_update ::
  "outside \<Rightarrow> int \<times> int \<Rightarrow> rat \<Rightarrow> rat \<Rightarrow> render_manager \<Rightarrow> render_manager" where
  "workspace_stream_update out k sx sy s =
     (case output_streams s k of
        None \<Rightarrow> s
      | Some stream \<Rightarrow>
     (case stream_ws stream of (x, y) \<Rightarrow>
      case get_current_workspace out of (cx, cy) \<Rightarrow>
      case transformed_resolution out of (sw, sh) \<Rightarrow>
      let g = get_relative_geometry out;
          dx = box_x g + (x - cx) * box_width g;
          dy = box_y g + (y - cy) * box_height g
      in
      case get_ws_damage out (stream_ws stream) Caller_region (s, Some pixman_region32_init) of
        (s1, filled) \<Rightarrow>
      let ws_damage0 = (case filled of Some r \<Rightarrow> r | None \<Rightarrow> pixman_region32_init);
          scaling = get_scaling (scale_x stream * scale_y stream) (sx * sy);
          ws_damage1 = (if scaling > 2 \<and> False
                        then pixman_region32_union_rect ws_damage0 dx dy sw sh
                        else ws_damage0)
      in
      if \<not> pixman_region32_not_empty ws_damage1 then s1
      else
        let ws_damage2 = (if sx \<noteq> scale_x stream \<or> sy \<noteq> scale_y stream
                          then pixman_region32_union_rect ws_damage1 dx dy sw sh
                          else ws_damage1)
        in
        case buffer_allocate out (stream_buffer stream) (log_event Render_begin s1) of
          (sb, s2) \<Rightarrow>
        let s3 = s2\<lparr>output_streams :=
                      (output_streams s2)(k \<mapsto> stream\<lparr>stream_buffer := sb\<rparr>)\<rparr>;
            target = stream_target out sb s3;
            s4 = log_event
                   (Emit_stream_signal ''workspace-stream-pre'' (Some ws_damage2) target) s3;
            views = get_views_on_workspace out (stream_ws stream) WF_ALL_LAYERS
        in
        case stream_schedule out dx dy views ws_damage2 s4 of
          ((ws_damage, to_render), s5) \<Rightarrow> stream_draw out target ws_damage to_render s5))"

definition workspace_stream_start ::
  "outside \<Rightarrow> int \<times> int \<Rightarrow> render_manager \<Rightarrow> render_manager" where
  "workspace_stream_start out k s =
     (case output_streams s k of
        None \<Rightarrow> s
      | Some stream \<Rightarrow>
     (case stream_ws stream of (vx, vy) \<Rightarrow>
      case get_current_workspace out of (cx, cy) \<Rightarrow>
      case transformed_resolution out of (sw, sh) \<Rightarrow>
        workspace_stream_update out k 1 1
          (s\<lparr>output_streams :=
               (output_streams s)(k \<mapsto> stream\<lparr>running := True, scale_x := 1, scale_y := 1\<rparr>),
             frame_damage :=
               pixman_region32_union_rect (frame_damage s)
                 ((vx - cx) * sw) ((vy - cy) * sh) sw sh\<rparr>)))"

definition workspace_stream_stop :: "int \<times> int \<Rightarrow> render_manager \<Rightarrow> render_manager" where
  "workspace_stream_stop k s =
     (case output_streams s k of
        None \<Rightarrow> s
      | Some stream \<Rightarrow>
          s\<lparr>output_streams := (output_streams s)(k \<mapsto> stream\<lparr>running := False\<rparr>)\<rparr>)"

section \<open>Painting a frame\<close>

text \<open>
  \<^verbatim>\<open>paint\<close> and \<^verbatim>\<open>post_paint\<close>.  The calls of \<^verbatim>\<open>log_info\<close>, the clock readings and the
  initialising and freeing of local regions leave no mark on the manager or its
  collaborators and are not modelled.  A post hook and a custom renderer are GPU passes:
  their calls are recorded in the trace.  The listeners of the stream signals are taken
  to leave the damage they are shown as it is.
\<close>

definition send_frame_done :: "wayfire_view \<Rightarrow> render_manager \<Rightarrow> render_manager" where
  "send_frame_done v s =
     (if \<not> view_is_mapped v then s
      else fold (\<lambda>(surface, x, y). log_event (Send_frame_done (surface_id surface)))
             (view_surfaces v) s)"

definition post_paint :: "outside \<Rightarrow> render_manager \<Rightarrow> render_manager" where
  "post_paint out s =
     (let s1 = cleanup_post_hooks out s;
          s2 = run_effects out WF_OUTPUT_EFFECT_POST s1;
          s3 = (if constant_redraw s2 \<noteq> 0 then schedule_redraw s2 else s2)
      in if renderer s3 \<noteq> None
         then fold send_frame_done (for_each_view out WF_ALL_LAYERS) s3
         else fold send_frame_done (for_each_view out WF_BELOW_ABOVE_LAYERS)
                (fold send_frame_done
                   (get_views_on_workspace out (get_current_workspace out) WF_MIDDLE_LAYERS)
                   s3))"

text \<open>
  The walk over the post-effect chain in \<^verbatim>\<open>paint\<close>: every entry's buffer is allocated for
  the output's size, its hook is called from the previous buffer to its own, and its
  buffer becomes the previous one.  The result is the entries as they are afterwards,
  the last buffer, and the manager.
\<close>

fun post_chain_loop ::
  "outside \<Rightarrow> wf_post_effect list \<Rightarrow> wf_framebuffer_base \<Rightarrow> render_manager
     \<Rightarrow> wf_post_effect list \<times> wf_framebuffer_base \<times> render_manager" where
  "post_chain_loop out [] previous s = ([], previous, s)"
| "post_chain_loop out (post # rest) previous s =
     (case buffer_allocate out (buffer post) (log_event Render_begin s) of (b, s1) \<Rightarrow>
      let s2 = log_event (Post_call (hook post) previous b) (log_event Render_end s1)
      in case post_chain_loop out rest b s2 of
           (rest', final, s3) \<Rightarrow> (post\<lparr>buffer := b\<rparr> # rest', final, s3))"

datatype failure = Assertion_failed | No_such_stream

text \<open>The scene of a frame (lines 325 to 354 of \<^verbatim>\<open>paint\<close>): the custom renderer, or the
  stream of the current workspace.  The result carries \<^verbatim>\<open>swap_damage\<close>.  The call
  \<^verbatim>\<open>workspace_stream_update(current_ws_stream)\<close> leaves both scales to their defaults,
  which the specification gives as 1.  Indexing \<^verbatim>\<open>output_streams\<close> outside the grid is
  undefined in the source and a failure here.\<close>

definition paint_scene ::
  "outside \<Rightarrow> pixman_region32 \<Rightarrow> render_manager
     \<Rightarrow> failure + (pixman_region32 \<times> render_manager)" where
  "paint_scene out swap_damage s =
     (case renderer s of
        Some rh \<Rightarrow>
          Inr (pixman_region32_union_rect swap_damage 0 0 (handle_width out) (handle_height out),
               log_event (Renderer_call rh (get_target_framebuffer out s)) s)
      | None \<Rightarrow>
          (case transformed_resolution out of (w, h) \<Rightarrow>
           let s1 = s\<lparr>frame_damage := pixman_region32_intersect_rect (frame_damage s) 0 0 w h\<rparr>
           in if pixman_region32_not_empty (frame_damage s1)
              then let target_stream = get_current_workspace out in
                   if output_streams s1 target_stream = None then Inl No_such_stream
                   else if current_ws_stream s1 \<noteq> Some target_stream
                   then let s2 = (case current_ws_stream s1 of
                                    Some old \<Rightarrow> workspace_stream_stop old s1
                                  | None \<Rightarrow> s1)
                        in Inr (frame_damage s1,
                                workspace_stream_start out target_stream
                                  (s2\<lparr>current_ws_stream := Some target_stream\<rparr>))
                   else Inr (frame_damage s1, workspace_stream_update out target_stream 1 1 s1)
              else Inr (swap_damage, s1)))"

text \<open>Lines 368 to 384 of \<^verbatim>\<open>paint\<close>: the walk over the chain, when there is one, and the
  assertion that it ended on the display.\<close>

definition paint_post_effects :: "outside \<Rightarrow> render_manager \<Rightarrow> failure + render_manager" where
  "paint_post_effects out s =
     (if post_effects s \<noteq> []
      then (case post_chain_loop out (post_effects s) (default_buffer s) s of
              (posts, final, s') \<Rightarrow>
                if fb final = 0 \<and> tex final = 0
                then Inr (s'\<lparr>post_effects := posts\<rparr>)
                else Inl Assertion_failed)
      else Inr s)"

text \<open>Lines 386 to 396: the black frame of an inhibited output, the swap and
  \<^verbatim>\<open>post_paint\<close>.\<close>

definition paint_finish :: "outside \<Rightarrow> pixman_region32 \<Rightarrow> render_manager \<Rightarrow> render_manager" where
  "paint_finish out swap_damage s =
     (let s1 = (if output_inhibit s \<noteq> 0
                then log_event Render_end (log_event Clear_black (log_event Render_begin s))
                else s);
          s2 = swap_buffers swap_damage (log_event Unbind_output s1)
      in post_paint out s2)"

text \<open>Lines 305 to 323: the output is bound, the default buffer allocated, and
  \<^verbatim>\<open>swap_damage\<close> starts empty, or full on a yellow frame under \<^verbatim>\<open>damage_debug\<close>.\<close>

definition paint_begin :: "outside \<Rightarrow> render_manager \<Rightarrow> pixman_region32 \<times> render_manager" where
  "paint_begin out s =
     (case buffer_allocate out (default_buffer s)
             (log_event Render_begin (log_event Bind_output s)) of
        (db, s0) \<Rightarrow>
          let s1 = log_event Render_end (s0\<lparr>default_buffer := db\<rparr>);
              swap_damage = pixman_region32_init
          in if damage_debug out
             then (pixman_region32_union_rect swap_damage 0 0
                     (handle_width out) (handle_height out),
                   log_event Render_end (log_event Clear_yellow (log_event Render_begin s1)))
             else (swap_damage, s1))"

text \<open>\<^verbatim>\<open>paint\<close> from \<^verbatim>\<open>OpenGL::bind_output\<close> on (line 305 to the end).\<close>

definition paint_frame :: "outside \<Rightarrow> render_manager \<Rightarrow> failure + render_manager" where
  "paint_frame out s =
     (case paint_begin out s of (swap_damage1, s2) \<Rightarrow>
      case paint_scene out swap_damage1 s2 of
        Inl e \<Rightarrow> Inl e
      | Inr (swap_damage2, s3) \<Rightarrow>
      let s4 = run_effects out WF_OUTPUT_EFFECT_OVERLAY s3;
          swap_damage = (if post_effects s4 \<noteq> []
                         then pixman_region32_union_rect swap_damage2 0 0
                                (handle_width out) (handle_height out)
                         else swap_damage2);
          s5 = log_event Render_end
                 (log_event (Wlr_output_render_software_cursors swap_damage)
                    (log_event Render_begin s4))
      in case paint_post_effects out s5 of
           Inl e \<Rightarrow> Inl e
         | Inr s6 \<Rightarrow> Inr (paint_finish out swap_damage s6))"

text \<open>Lines 286 to 293: flagged post effects are removed, the frame damage is cleared and
  the pre effects run.  (The time stamp taken first is not modelled.)\<close>

definition paint_prepare :: "outside \<Rightarrow> render_manager \<Rightarrow> render_manager" where
  "paint_prepare out s =
     run_effects out WF_OUTPUT_EFFECT_PRE ((cleanup_post_hooks out s)\<lparr>frame_damage := []\<rparr>)"

text \<open>\<^verbatim>\<open>paint\<close>.  It returns nothing; the result is the manager afterwards, or the failure
  that stopped the program.\<close>

definition paint :: "outside \<Rightarrow> render_manager \<Rightarrow> failure + render_manager" where
  "paint out s =
     (let s3 = paint_prepare out s
      in case make_current out (frame_damage s3) s3 of
           (r, needs_swap, out_damage, s4) \<Rightarrow>
             let s5 = s4\<lparr>frame_damage := out_damage\<rparr> in
             if \<not> r then Inr s5
             else if \<not> needs_swap \<and> constant_redraw s5 = 0 then Inr (post_paint out s5)
             else paint_frame out s5)"

section \<open>Construction\<close>

definition init_default_streams :: "outside \<Rightarrow> int \<times> int \<Rightarrow> wf_workspace_stream option" where
  "init_default_streams out k =
     (if 0 \<le> fst k \<and> fst k < vwidth out \<and> 0 \<le> snd k \<and> snd k < vheight out
      then Some ((new_workspace_stream out)
                   \<lparr>stream_ws := k,
                    stream_buffer := (stream_buffer (new_workspace_stream out))\<lparr>fb := 0, tex := 0\<rparr>\<rparr>)
      else None)"

text \<open>
  Modelled from the spec: the values of the members before the constructor's body runs.
  They are the initialisers of the class declaration, in a header that is not among the
  sources: both counters are \<open>0\<close>, no idle source is queued, there is no custom renderer,
  no hook and no current stream.  The rest is the constructor as written: the default
  buffer gets the ids \<open>0\<close>, the damage accumulator is created and the whole output
  damaged, the stream grid is filled and a redraw is scheduled.
\<close>

definition render_manager_init :: "outside \<Rightarrow> render_manager" where
  "render_manager_init out =
     schedule_redraw
       (output_damage_add out
          \<lparr>default_buffer = (new_framebuffer_base out)\<lparr>fb := 0, tex := 0\<rparr>,
           output_damage_frame_damage = pixman_region32_init,
           frame_damage = pixman_region32_init,
           output_streams = init_default_streams out,
           current_ws_stream = None,
           idle_redraw_source = False,
           idle_damage_source = False,
           constant_redraw = 0,
           output_inhibit = 0,
           renderer = None,
           effects = (\<lambda>type. []),
           post_effects = [],
           trace = []\<rparr>)"

section \<open>Notions used by the properties\<close>

text \<open>The hooks called through \<^verbatim>\<open>run_effects\<close>, in the order of the calls.\<close>

fun effect_calls :: "event list \<Rightarrow> hook_ptr list" where
  "effect_calls [] = []"
| "effect_calls (Effect_call hk # es) = hk # effect_calls es"
| "effect_calls (e # es) = effect_calls es"


text \<open>A buffer with the ids of the display, and one with ids of its own.\<close>

definition zero_ids :: "wf_framebuffer_base \<Rightarrow> bool" where
  "zero_ids b = (fb b = 0 \<and> tex b = 0)"

definition real_ids :: "wf_framebuffer_base \<Rightarrow> bool" where
  "real_ids b = (fb b \<noteq> 0 \<and> tex b \<noteq> 0)"

text \<open>
  What the manager relies on from the framebuffer helper (\<^verbatim>\<open>wf_framebuffer_base\<close>, whose
  code is not part of the render manager): \<^verbatim>\<open>allocate\<close> on the display's ids only records
  the size (``Just resize the framebuffer'', and the assertion after the chain walk in
  \<^verbatim>\<open>paint\<close>); \<^verbatim>\<open>allocate\<close> after \<^verbatim>\<open>reset\<close> gives the buffer ids of its own; and
  \<^verbatim>\<open>allocate\<close> never turns a buffer with a framebuffer of its own into the display.
\<close>

definition framebuffer_contract :: "outside \<Rightarrow> bool" where
  "framebuffer_contract out =
     ((\<forall>t b w h. zero_ids b \<longrightarrow> zero_ids (allocate out t b w h))
      \<and> (\<forall>t b w h. real_ids (allocate out t (reset out b) w h))
      \<and> (\<forall>t b w h. fb b \<noteq> 0 \<longrightarrow> fb (allocate out t b w h) \<noteq> 0))"

text \<open>
  The post-effect chain is in order when no entry has the display's framebuffer with a
  texture of its own, and the last entry, if there is one, has the ids of the display.
\<close>

definition ids_ok :: "wf_framebuffer_base \<Rightarrow> bool" where
  "ids_ok b = (0 < fb b \<or> tex b = 0)"

definition chain_inv :: "render_manager \<Rightarrow> bool" where
  "chain_inv s =
     (list_all (\<lambda>e. ids_ok (buffer e)) (post_effects s)
      \<and> (post_effects s = [] \<or> zero_ids (buffer (last (post_effects s)))))"

text \<open>The states of a manager: after construction, and after any operation, idle callback
  or frame, each with a collaborator that keeps the framebuffer contract.\<close>

inductive reachable :: "render_manager \<Rightarrow> bool" where
  constructed: "reachable (render_manager_init out)"
| called: "reachable s \<Longrightarrow> framebuffer_contract out \<Longrightarrow> reachable (exec_api out c s)"
| cleaned: "reachable s \<Longrightarrow> framebuffer_contract out \<Longrightarrow> reachable (cleanup_post_hooks out s)"
| redraw_idle: "reachable s \<Longrightarrow> reachable (redraw_idle_cb s)"
| damage_idle: "reachable s \<Longrightarrow> reachable (damage_idle_cb out s)"
| painted: "reachable s \<Longrightarrow> framebuffer_contract out \<Longrightarrow> paint out s = Inr s'
            \<Longrightarrow> reachable s'"

section \<open>A concrete output and scene\<close>

text \<open>
  Modelled from the spec: the framebuffer helper (``\<^verbatim>\<open>allocate(w,h)\<close> creates or resizes the
  texture+fbo. \<^verbatim>\<open>release()\<close> deletes both'', ``\<^verbatim>\<open>reset()\<close> drops without freeing'', the
  zero id is the display).  \<^verbatim>\<open>wf_framebuffer_base\<close> is not among the sources; this
  instance marks a dropped id with the largest 32-bit value and numbers new ids by the
  length of the trace.  It is used for examples only.
\<close>

definition example_reset :: "wf_framebuffer_base \<Rightarrow> wf_framebuffer_base" where
  "example_reset b = b\<lparr>fb := 4294967295, tex := 4294967295,
                       viewport_width := 0, viewport_height := 0\<rparr>"

definition example_allocate ::
  "event list \<Rightarrow> wf_framebuffer_base \<Rightarrow> int \<Rightarrow> int \<Rightarrow> wf_framebuffer_base" where
  "example_allocate t b w h =
     (if fb b = 0 \<and> tex b = 0 then b\<lparr>viewport_width := w, viewport_height := h\<rparr>
      else b\<lparr>fb := (if fb b = 4294967295 then Suc (length t) else fb b),
             tex := (if tex b = 4294967295 then Suc (length t) else tex b),
             viewport_width := w, viewport_height := h\<rparr>)"

definition example_release :: "event list \<Rightarrow> wf_framebuffer_base \<Rightarrow> wf_framebuffer_base" where
  "example_release t b = example_reset b"

definition example_box :: wlr_box where
  "example_box = \<lparr>box_x = 0, box_y = 0, box_width = 100, box_height = 100\<rparr>"


definition surface_2 :: wayfire_surface where
  "surface_2 = \<lparr>surface_id = 2, is_mapped = True, get_output_geometry = example_box,
                alpha = 1,
                subtract_opaque = (\<lambda>region x y.
                  pixman_region32_subtract region (pixman_region32_init_rect x y 100 100))\<rparr>"

definition surface_3 :: wayfire_surface where
  "surface_3 = \<lparr>surface_id = 3, is_mapped = True, get_output_geometry = example_box,
                alpha = 1 / 2, subtract_opaque = (\<lambda>region x y. region)\<rparr>"

definition example_view :: "nat \<Rightarrow> wayfire_surface \<Rightarrow> wayfire_view" where
  "example_view n surface =
     \<lparr>view_id = n, view_is_mapped = True, is_visible = True, is_shell_view = False,
      has_transformer = False, get_bounding_box = example_box,
      view_surfaces = [(surface, 0, 0)]\<rparr>"

text \<open>A 100 by 100 output at scale 1 on a 3 by 3 workspace grid.  Hook 1 adds hook 3 to the
  pre effects and removes hook 2 from them; the other hooks do nothing.\<close>

definition example_outside :: outside where
  "example_outside =
     \<lparr>destroyed = False, handle_width = 100, handle_height = 100, handle_scale = 1,
      transformed_resolution = (100, 100), get_relative_geometry = example_box,
      get_current_workspace = (0, 0),
      get_views_on_workspace = (\<lambda>ws layers.
         [example_view 10 surface_2, example_view 11 surface_3]),
      for_each_view = (\<lambda>layers. []),
      drag_icons = [],
      vwidth = 3, vheight = 3,
      no_damage_track = False, damage_debug = False,
      get_output_box_from_box = (\<lambda>box scale. box),
      new_framebuffer_base = \<lparr>fb = 4294967295, tex = 4294967295,
                               viewport_width = 0, viewport_height = 0\<rparr>,
      new_workspace_stream =
        \<lparr>stream_ws = (0, 0),
         stream_buffer = \<lparr>fb = 4294967295, tex = 4294967295,
                           viewport_width = 0, viewport_height = 0\<rparr>,
         running = False, scale_x = 1, scale_y = 1\<rparr>,
      allocate = example_allocate, release = example_release, reset = example_reset,
      wlr_output_damage_make_current = (\<lambda>t out_damage.
         (True, True, pixman_region32_union_rect out_damage 0 0 100 100)),
      hook_body = (\<lambda>hk s.
         if hk = 1 then [Call_add_effect 3 WF_OUTPUT_EFFECT_PRE,
                         Call_rem_effect 2 WF_OUTPUT_EFFECT_PRE]
         else [])\<rparr>"

text \<open>The same output when the display refuses to make its buffer current.\<close>

definition failing_outside :: outside where
  "failing_outside =
     example_outside\<lparr>wlr_output_damage_make_current := (\<lambda>t out_damage. (False, False, out_damage))\<rparr>"

text \<open>A manager whose constant redraw was requested once and whose queued idle redraw has
  run: the counter is 1 and no idle redraw is queued.\<close>

definition redrawing_manager :: render_manager where
  "redrawing_manager =
     redraw_idle_cb (auto_redraw True (redraw_idle_cb (render_manager_init example_outside)))"

text \<open>A manager with one post effect, hook 5.\<close>

definition one_post_manager :: render_manager where
  "one_post_manager =
     exec_api example_outside (Call_add_post 5) (render_manager_init example_outside)"

text \<open>The same manager after a second post effect, hook 6, was added.\<close>

definition two_post_manager :: render_manager where
  "two_post_manager = exec_api example_outside (Call_add_post 6) one_post_manager"

section \<open>The pixels of each region operation\<close>

lemma pixels_Nil: "pixels [] = {}"
  by (simp add: pixels_def)

lemma pixels_Cons: "pixels (b # r) = {p. in_box b p} \<union> pixels r"
  by (auto simp: pixels_def)

lemma pixels_append: "pixels (a @ b) = pixels a \<union> pixels b"
  by (auto simp: pixels_def)

lemma pixels_concat: "pixels (concat rs) = (\<Union>r \<in> set rs. pixels r)"
  by (auto simp: pixels_def)

lemma in_box_good: "in_box b p \<Longrightarrow> good_rect b"
  by (auto simp: in_box_def good_rect_def)

lemma pixels_filter_good: "pixels (filter good_rect r) = pixels r"
  by (auto simp: pixels_def dest: in_box_good)

lemma in_rect_box: "in_box (rect_box x y w h) p = (p \<in> rect_pixels x y w h)"
  by (simp add: in_box_def rect_box_def rect_pixels_def)

lemma pixels_init: "pixels pixman_region32_init = {}"
  by (simp add: pixman_region32_init_def pixels_Nil)

lemma not_good_rect: "\<not> good_rect b \<Longrightarrow> \<not> in_box b p"
  by (auto simp: in_box_def good_rect_def)

lemma pixels_init_rect: "pixels (pixman_region32_init_rect x y w h) = rect_pixels x y w h"
proof (cases "good_rect (rect_box x y w h)")
  case True
  then show ?thesis
    by (auto simp: pixman_region32_init_rect_def pixels_Cons pixels_Nil in_rect_box)
next
  case False
  then have "rect_pixels x y w h = {}"
    using not_good_rect [of "rect_box x y w h"] by (auto simp: in_rect_box)
  with False show ?thesis
    by (simp add: pixman_region32_init_rect_def pixels_Nil)
qed

lemma pixels_union: "pixels (pixman_region32_union a b) = pixels a \<union> pixels b"
  by (simp add: pixman_region32_union_def pixels_append)

lemma pixels_union_rect:
  "pixels (pixman_region32_union_rect src x y w h) = pixels src \<union> rect_pixels x y w h"
proof (cases "good_rect (rect_box x y w h)")
  case True
  then show ?thesis
    by (auto simp: pixman_region32_union_rect_def pixels_union pixels_Cons pixels_Nil in_rect_box)
next
  case False
  then have "rect_pixels x y w h = {}"
    using not_good_rect [of "rect_box x y w h"] by (auto simp: in_rect_box)
  with False show ?thesis
    by (simp add: pixman_region32_union_rect_def)
qed

lemma in_box_intersect: "in_box (box_intersect a b) p = (in_box a p \<and> in_box b p)"
  by (auto simp: in_box_def box_intersect_def)

lemma pixels_intersect: "pixels (pixman_region32_intersect a b) = pixels a \<inter> pixels b"
proof -
  have "pixels (concat (map (\<lambda>p. map (box_intersect p) b) a)) = pixels a \<inter> pixels b"
    by (fastforce simp: pixels_def in_box_intersect)
  then show ?thesis
    by (simp add: pixman_region32_intersect_def pixels_filter_good)
qed

lemma pixels_intersect_rect:
  "pixels (pixman_region32_intersect_rect src x y w h) = pixels src \<inter> rect_pixels x y w h"
proof -
  have "pixels [rect_box x y w h] = rect_pixels x y w h"
    by (auto simp: pixels_Cons pixels_Nil in_rect_box)
  then show ?thesis
    by (simp add: pixman_region32_intersect_rect_def pixels_intersect)
qed

lemma pixels_box_subtract: "pixels (box_subtract a b) = {p. in_box a p \<and> \<not> in_box b p}"
  unfolding box_subtract_def pixels_filter_good
  by (auto simp: pixels_Cons pixels_Nil in_box_def)

lemma pixels_region_subtract_box:
  "pixels (region_subtract_box a q) = pixels a - {p. in_box q p}"
proof (induction a)
  case Nil
  show ?case by (simp add: region_subtract_box_def pixels_Nil)
next
  case (Cons b a)
  have "pixels (region_subtract_box (b # a) q)
        = pixels (box_subtract b q) \<union> pixels (region_subtract_box a q)"
    by (simp add: region_subtract_box_def pixels_append)
  then show ?case
    by (auto simp: Cons.IH pixels_box_subtract pixels_Cons)
qed

lemma pixels_subtract: "pixels (pixman_region32_subtract a b) = pixels a - pixels b"
  unfolding pixman_region32_subtract_def
proof (induction b arbitrary: a)
  case Nil
  show ?case by (simp add: pixels_Nil)
next
  case (Cons q b)
  show ?case by (auto simp: Cons.IH pixels_region_subtract_box pixels_Cons)
qed

lemma pixels_translate:
  "pixels (pixman_region32_translate r dx dy) = (\<lambda>p. (fst p + dx, snd p + dy)) ` pixels r"
proof -
  have "in_box \<lparr>x1 = x1 b + dx, y1 = y1 b + dy, x2 = x2 b + dx, y2 = y2 b + dy\<rparr> p
        = in_box b (fst p - dx, snd p - dy)" for b p
    by (auto simp: in_box_def)
  then have "pixels (pixman_region32_translate r dx dy)
        = {p. (fst p - dx, snd p - dy) \<in> pixels r}"
    by (auto simp: pixman_region32_translate_def pixels_def)
  also have "\<dots> = (\<lambda>p. (fst p + dx, snd p + dy)) ` pixels r"
    by (force simp: image_iff)
  finally show ?thesis .
qed


section \<open>Traces of the operations\<close>

lemma effect_calls_append: "effect_calls (a @ b) = effect_calls a @ effect_calls b"
  by (induction a rule: effect_calls.induct) auto

lemma effect_calls_log_event:
  "effect_calls (trace (log_event e s)) = effect_calls (trace s) @ effect_calls [e]"
  by (simp add: log_event_def effect_calls_append)

lemma effect_calls_damage: "effect_calls (trace (damage out r s)) = effect_calls (trace s)"
  by (simp add: damage_def output_damage_add_def output_damage_add_region_def
      output_damage_add_box_def schedule_repaint_def effect_calls_log_event
      split: option.splits prod.splits)

lemma effect_calls_damage_box: "effect_calls (trace (damage_box out b s)) = effect_calls (trace s)"
  by (simp add: damage_box_def output_damage_add_box_def schedule_repaint_def effect_calls_log_event)

lemma trace_set_last_buffer: "trace (set_last_buffer b s) = trace s"
  by (simp add: set_last_buffer_def)

lemma effect_calls_add_post: "effect_calls (trace (add_post out hk s)) = effect_calls (trace s)"
  by (simp add: add_post_def buffer_allocate_def Let_def effect_calls_damage
      effect_calls_log_event trace_set_last_buffer)

lemma effect_calls_rem_post: "effect_calls (trace (rem_post out hk s)) = effect_calls (trace s)"
  by (simp add: rem_post_def effect_calls_damage)

lemma effect_calls_schedule_redraw: "effect_calls (trace (schedule_redraw s)) = effect_calls (trace s)"
  by (simp add: schedule_redraw_def effect_calls_log_event log_event_def effect_calls_append)

lemma effect_calls_exec_api: "effect_calls (trace (exec_api out c s)) = effect_calls (trace s)"
proof (cases c)
  case (Call_auto_redraw b)
  then show ?thesis
    by (simp add: exec_api_def auto_redraw_def Let_def effect_calls_schedule_redraw)
next
  case (Call_add_inhibit b)
  then show ?thesis
    by (simp add: exec_api_def add_inhibit_def Let_def effect_calls_log_event effect_calls_damage)
next
  case Call_reset_renderer
  then show ?thesis
    by (simp add: exec_api_def reset_renderer_def Let_def log_event_def effect_calls_append)
qed (simp_all add: exec_api_def effect_calls_damage effect_calls_damage_box effect_calls_add_post
      effect_calls_rem_post effect_calls_schedule_redraw add_effect_def rem_effect_def
      set_renderer_def)

lemma effect_calls_fold_api:
  "effect_calls (trace (fold (exec_api out) cs s)) = effect_calls (trace s)"
  by (induction cs arbitrary: s) (simp_all add: effect_calls_exec_api)

lemma effect_calls_call_hook: "effect_calls (trace (call_hook out hk s)) = effect_calls (trace s)"
  by (simp add: call_hook_def effect_calls_fold_api)

lemma effect_calls_run_active:
  "effect_calls (trace (run_active_effects out active s)) = effect_calls (trace s) @ active"
  by (induction active arbitrary: s)
     (simp_all add: effect_calls_call_hook effect_calls_log_event)







section \<open>The post-effect chain stays in order\<close>

lemma post_effects_log_event [simp]: "post_effects (log_event e s) = post_effects s"
  by (simp add: log_event_def)

lemma post_effects_damage [simp]: "post_effects (damage out r s) = post_effects s"
  by (simp add: damage_def output_damage_add_def output_damage_add_region_def
      output_damage_add_box_def schedule_repaint_def split: option.splits prod.splits)

lemma post_effects_damage_box [simp]: "post_effects (damage_box out b s) = post_effects s"
  by (simp add: damage_box_def output_damage_add_box_def schedule_repaint_def)

lemma add_post_last:
  "post_effects (add_post out hk s) \<noteq> []
   \<and> hook (last (post_effects (add_post out hk s))) = hk
   \<and> \<not> to_remove (last (post_effects (add_post out hk s)))
   \<and> (\<exists>t. buffer (last (post_effects (add_post out hk s))) =
         allocate out t ((new_framebuffer_base out)\<lparr>fb := 0, tex := 0\<rparr>)
           (handle_width out) (handle_height out))"
  by (auto simp: add_post_def buffer_allocate_def Let_def)

lemma add_post_butlast:
  "butlast (post_effects (add_post out hk s)) =
     (if post_effects s = [] then []
      else butlast (post_effects s) @
        [(last (post_effects s))\<lparr>buffer :=
            allocate out (trace s) (reset out (buffer (last (post_effects s))))
              (handle_width out) (handle_height out)\<rparr>])"
  by (simp add: add_post_def buffer_allocate_def set_last_buffer_def last_buffer_def Let_def
      butlast_append)

lemma add_post_default_buffer:
  "post_effects s = [] \<Longrightarrow>
   default_buffer (add_post out hk s) =
     allocate out (trace s) (reset out (default_buffer s)) (handle_width out) (handle_height out)"
  by (simp add: add_post_def buffer_allocate_def set_last_buffer_def last_buffer_def Let_def
      damage_def output_damage_add_def output_damage_add_box_def schedule_repaint_def log_event_def
      split: prod.splits)

lemma real_ids_ok: "real_ids b \<Longrightarrow> ids_ok b"
  by (simp add: real_ids_def ids_ok_def)

lemma zero_ids_ok: "zero_ids b \<Longrightarrow> ids_ok b"
  by (simp add: zero_ids_def ids_ok_def)

lemma list_all_butlast: "list_all P xs \<Longrightarrow> list_all P (butlast xs)"
  by (auto simp: list_all_iff dest: in_set_butlastD)

lemma chain_inv_add_post:
  assumes c: "framebuffer_contract out" and inv: "chain_inv s"
  shows "chain_inv (add_post out hk s)"
proof -
  let ?ps = "post_effects (add_post out hk s)"
  from add_post_last [of out hk s] obtain t where
    ne: "?ps \<noteq> []" and b: "buffer (last ?ps) =
         allocate out t ((new_framebuffer_base out)\<lparr>fb := 0, tex := 0\<rparr>)
           (handle_width out) (handle_height out)"
    by blast
  have z: "zero_ids (buffer (last ?ps))"
    using c unfolding b framebuffer_contract_def by (simp add: zero_ids_def)
  have "list_all (\<lambda>e. ids_ok (buffer e)) (butlast ?ps)"
    using inv c unfolding add_post_butlast
    by (auto simp: chain_inv_def framebuffer_contract_def list_all_butlast real_ids_ok)
  moreover have "?ps = butlast ?ps @ [last ?ps]" using ne by simp
  ultimately have "list_all (\<lambda>e. ids_ok (buffer e)) ?ps"
    using z list_all_append [of "\<lambda>e. ids_ok (buffer e)" "butlast ?ps" "[last ?ps]"]
    by (simp add: zero_ids_ok)
  with z show ?thesis by (simp add: chain_inv_def)
qed

lemma erase_post_filter:
  "fst (erase_post out p es s) = filter (\<lambda>e. addr e \<noteq> p) es"
  by (induction es arbitrary: s) (simp_all add: split_def)

lemma erase_post_post_effects [simp]:
  "post_effects (snd (erase_post out p es s)) = post_effects s"
  by (induction es arbitrary: s) (simp_all add: split_def buffer_release_def)

lemma post_effects_rem_post_internal:
  "post_effects (rem_post_internal out p s) =
     (let es = filter (\<lambda>e. addr e \<noteq> p) (post_effects s) in
      if es = [] then []
      else if fb (buffer (last es)) \<noteq> 0
      then butlast es @ [(last es)\<lparr>buffer :=
             (release out (trace (snd (erase_post out p (post_effects s) s))) (buffer (last es)))
               \<lparr>fb := 0, tex := 0\<rparr>\<rparr>]
      else es)"
proof -
  obtain es s1 where e: "erase_post out p (post_effects s) s = (es, s1)"
    by (cases "erase_post out p (post_effects s) s")
  have es: "es = filter (\<lambda>e. addr e \<noteq> p) (post_effects s)"
    using erase_post_filter [of out p "post_effects s" s] e by simp
  have s1: "s1 = snd (erase_post out p (post_effects s) s)" using e by simp
  show ?thesis
    unfolding rem_post_internal_def e
    by (simp add: Let_def last_buffer_def set_last_buffer_def buffer_release_def es [symmetric]
        s1 [symmetric] log_event_def)
qed

lemma chain_inv_rem_post_internal:
  assumes "list_all (\<lambda>e. ids_ok (buffer e)) (post_effects s)"
  shows "chain_inv (rem_post_internal out p s)"
proof -
  let ?es = "filter (\<lambda>e. addr e \<noteq> p) (post_effects s)"
  have all: "list_all (\<lambda>e. ids_ok (buffer e)) ?es"
    using assms by (auto simp: list_all_iff)
  show ?thesis
  proof (cases "?es = []")
    case True
    then show ?thesis by (simp add: chain_inv_def post_effects_rem_post_internal)
  next
    case False
    then have l: "last ?es \<in> set ?es" by (rule last_in_set)
    with all have ok: "ids_ok (buffer (last ?es))" by (auto simp: list_all_iff)
    show ?thesis
    proof (cases "fb (buffer (last ?es)) \<noteq> 0")
      case True
      with False all show ?thesis
        by (simp add: chain_inv_def post_effects_rem_post_internal Let_def list_all_butlast
            zero_ids_def ids_ok_def)
    next
      case f: False
      with ok have "zero_ids (buffer (last ?es))" by (simp add: ids_ok_def zero_ids_def)
      with f False all show ?thesis
        by (simp add: chain_inv_def post_effects_rem_post_internal Let_def)
    qed
  qed
qed

lemma chain_inv_fold_rem_post:
  "chain_inv s \<Longrightarrow> chain_inv (fold (rem_post_internal out) ps s)"
proof (induction ps arbitrary: s)
  case Nil
  then show ?case by simp
next
  case (Cons p ps)
  from Cons.prems have "list_all (\<lambda>e. ids_ok (buffer e)) (post_effects s)"
    by (simp add: chain_inv_def)
  then have "chain_inv (rem_post_internal out p s)"
    by (rule chain_inv_rem_post_internal)
  then show ?case using Cons.IH by simp
qed

lemma chain_inv_cleanup: "chain_inv s \<Longrightarrow> chain_inv (cleanup_post_hooks out s)"
  by (simp add: cleanup_post_hooks_def chain_inv_fold_rem_post)

lemma cleanup_removes:
  assumes "list_all (\<lambda>e. ids_ok (buffer e)) (post_effects s)"
    and "list_ex to_remove (post_effects s)"
  shows "chain_inv (cleanup_post_hooks out s)"
proof -
  from assms(2) obtain p ps where ps: "map addr (filter to_remove (post_effects s)) = p # ps"
    by (cases "map addr (filter to_remove (post_effects s))") (auto simp: list_ex_iff filter_empty_conv)
  show ?thesis
    unfolding cleanup_post_hooks_def ps
    using chain_inv_rem_post_internal [OF assms(1)] by (simp add: chain_inv_fold_rem_post)
qed

lemma chain_inv_rem_post: "chain_inv s \<Longrightarrow> chain_inv (rem_post out hk s)"
proof (cases "post_effects s = []")
  case True
  then show ?thesis by (simp add: chain_inv_def rem_post_def)
next
  case False
  assume "chain_inv s"
  with False show ?thesis
    by (auto simp: chain_inv_def rem_post_def list_all_iff last_map)
qed

lemma chain_inv_cong: "post_effects s' = post_effects s \<Longrightarrow> chain_inv s' = chain_inv s"
  by (simp add: chain_inv_def)

lemma post_effects_schedule_redraw [simp]: "post_effects (schedule_redraw s) = post_effects s"
  by (simp add: schedule_redraw_def)

lemma chain_inv_log_event [simp]: "chain_inv (log_event e s) = chain_inv s"
  by (simp add: chain_inv_def)

lemma post_effects_exec_api_other:
  "(\<forall>hk. c \<noteq> Call_add_post hk) \<Longrightarrow> (\<forall>hk. c \<noteq> Call_rem_post hk) \<Longrightarrow>
   post_effects (exec_api out c s) = post_effects s"
  by (cases c)
     (simp_all add: exec_api_def add_effect_def rem_effect_def set_renderer_def
       auto_redraw_def add_inhibit_def reset_renderer_def Let_def)

lemma chain_inv_exec_api:
  assumes "framebuffer_contract out" "chain_inv s"
  shows "chain_inv (exec_api out c s)"
proof -
  consider hk where "c = Call_add_post hk" | hk where "c = Call_rem_post hk"
    | "(\<forall>hk. c \<noteq> Call_add_post hk) \<and> (\<forall>hk. c \<noteq> Call_rem_post hk)"
    by blast
  then show ?thesis
  proof cases
    case 1
    with assms show ?thesis by (simp add: exec_api_def chain_inv_add_post)
  next
    case 2
    with assms show ?thesis by (simp add: exec_api_def chain_inv_rem_post)
  next
    case 3
    then have "post_effects (exec_api out c s) = post_effects s"
      by (simp add: post_effects_exec_api_other)
    then show ?thesis using assms(2) chain_inv_cong by blast
  qed
qed

lemma chain_inv_fold_api:
  "framebuffer_contract out \<Longrightarrow> chain_inv s \<Longrightarrow> chain_inv (fold (exec_api out) cs s)"
  by (induction cs arbitrary: s) (simp_all add: chain_inv_exec_api)

lemma chain_inv_call_hook:
  "framebuffer_contract out \<Longrightarrow> chain_inv s \<Longrightarrow> chain_inv (call_hook out hk s)"
  by (simp add: call_hook_def chain_inv_fold_api)

lemma chain_inv_run_active:
  "framebuffer_contract out \<Longrightarrow> chain_inv s \<Longrightarrow> chain_inv (run_active_effects out active s)"
  by (induction active arbitrary: s) (simp_all add: chain_inv_call_hook)

lemma chain_inv_run_effects:
  "framebuffer_contract out \<Longrightarrow> chain_inv s \<Longrightarrow> chain_inv (run_effects out type s)"
  by (simp add: run_effects_def chain_inv_run_active)

lemma post_effects_send_frame_done [simp]:
  "post_effects (fold send_frame_done vs s) = post_effects s"
proof (induction vs arbitrary: s)
  case Nil
  show ?case by simp
next
  case (Cons v vs)
  have "post_effects (fold (\<lambda>(surface, x, y). log_event (Send_frame_done (surface_id surface))) xs s')
        = post_effects s'" for xs :: "(wayfire_surface \<times> int \<times> int) list" and s'
    by (induction xs arbitrary: s') (simp_all add: split_def)
  then have "post_effects (send_frame_done v s) = post_effects s"
    by (simp add: send_frame_done_def)
  then show ?case using Cons.IH by simp
qed

lemma chain_inv_post_paint:
  assumes "framebuffer_contract out" "chain_inv s"
  shows "chain_inv (post_paint out s)"
proof -
  have "chain_inv (run_effects out WF_OUTPUT_EFFECT_POST (cleanup_post_hooks out s))"
    using assms by (simp add: chain_inv_run_effects chain_inv_cleanup)
  moreover have "post_effects (post_paint out s)
      = post_effects (run_effects out WF_OUTPUT_EFFECT_POST (cleanup_post_hooks out s))"
    by (simp add: post_paint_def Let_def)
  ultimately show ?thesis using chain_inv_cong by blast
qed

lemma post_effects_make_current [simp]:
  "post_effects (snd (snd (snd (make_current out d s)))) = post_effects s"
  by (simp add: make_current_def Let_def split: prod.splits)

text \<open>The chain walk allocates every buffer and ends on the last one.\<close>

lemma post_chain_loop_entries:
  "fst (post_chain_loop out ps previous s) =
     map (\<lambda>p. p\<lparr>buffer := buffer p\<rparr>) (fst (post_chain_loop out ps previous s))
   \<and> length (fst (post_chain_loop out ps previous s)) = length ps"
  by (induction ps arbitrary: previous s) (simp_all add: split_def Let_def)

lemma post_chain_loop_inv:
  assumes c: "framebuffer_contract out"
  shows "list_all (\<lambda>e. ids_ok (buffer e)) ps \<Longrightarrow>
         list_all (\<lambda>e. ids_ok (buffer e)) (fst (post_chain_loop out ps previous s))
         \<and> (ps \<noteq> [] \<longrightarrow> zero_ids (buffer (last ps)) \<longrightarrow>
              zero_ids (buffer (last (fst (post_chain_loop out ps previous s)))))
         \<and> (ps = [] \<longleftrightarrow> fst (post_chain_loop out ps previous s) = [])"
proof (induction ps arbitrary: previous s)
  case Nil
  show ?case by simp
next
  case (Cons p ps)
  let ?b = "allocate out (trace (log_event Render_begin s)) (buffer p) (handle_width out)
              (handle_height out)"
  from Cons.prems have okp: "ids_ok (buffer p)" and okps: "list_all (\<lambda>e. ids_ok (buffer e)) ps"
    by simp_all
  have okb: "ids_ok ?b"
  proof (cases "fb (buffer p) = 0")
    case True
    with okp have "zero_ids (buffer p)" by (simp add: ids_ok_def zero_ids_def)
    with c have "zero_ids ?b" by (simp add: framebuffer_contract_def)
    then show ?thesis by (rule zero_ids_ok)
  next
    case False
    with c have "fb ?b \<noteq> 0" by (simp add: framebuffer_contract_def)
    then show ?thesis by (simp add: ids_ok_def)
  qed
  have zb: "zero_ids (buffer p) \<Longrightarrow> zero_ids ?b"
    using c by (simp add: framebuffer_contract_def)
  show ?case
    using Cons.IH [OF okps] okb zb
    by (simp add: split_def Let_def buffer_allocate_def)
qed

lemma post_effects_post_chain_loop [simp]:
  "post_effects (snd (snd (post_chain_loop out ps previous s))) = post_effects s"
  by (induction ps arbitrary: previous s) (simp_all add: split_def Let_def buffer_allocate_def)

lemma post_effects_drag_icons_loop [simp]:
  "post_effects (snd (drag_icons_loop out icons st s)) = post_effects s"
  by (induction icons arbitrary: st s) simp_all

lemma post_effects_render_loop [simp]:
  "post_effects (snd (render_loop to_render i target s)) = post_effects s"
proof (induction to_render i target s rule: render_loop.induct)
  case (1 to_render i target s)
  show ?case
  proof (cases "i < length to_render")
    case True
    then show ?thesis
      using "1.IH" [OF True refl refl]
      by (subst render_loop.simps) (simp add: Let_def)
  next
    case False
    then show ?thesis by (subst render_loop.simps) simp
  qed
qed

lemma post_effects_fold_clear [simp]:
  "post_effects (fold (\<lambda>r. log_event (f r)) rs s) = post_effects s"
  by (induction rs arbitrary: s) simp_all

lemma post_effects_fold_icons [simp]:
  "post_effects (fold (\<lambda>icon. if icon_is_mapped icon
                                then log_event (Icon_set_output (icon_id icon) False)
                                else id) icons s) = post_effects s"
  by (induction icons arbitrary: s) simp_all

lemma post_effects_buffer_allocate [simp]:
  "post_effects (snd (buffer_allocate out b s)) = post_effects s"
  by (simp add: buffer_allocate_def)

lemma post_effects_stream_schedule [simp]:
  "post_effects (snd (stream_schedule out dx dy views wsd s)) = post_effects s"
  by (simp add: stream_schedule_def split_def)

lemma post_effects_stream_draw [simp]:
  "post_effects (stream_draw out target wsd to_render s) = post_effects s"
  by (simp add: stream_draw_def split_def Let_def)

lemma post_effects_workspace_stream_update [simp]:
  "post_effects (workspace_stream_update out k sx sy s) = post_effects s"
proof (cases "output_streams s k")
  case None
  then show ?thesis by (simp add: workspace_stream_update_def)
next
  case (Some stream)
  have g: "fst (get_ws_damage out ws Caller_region (s, c)) = s" for ws c
    by (simp add: get_ws_damage_def read_region_def write_region_def
        pixman_region32_selfcheck_def Let_def split: prod.splits option.splits)
  show ?thesis
    unfolding workspace_stream_update_def Some
    by (simp add: split_def Let_def g)
qed

lemma post_effects_workspace_stream_start [simp]:
  "post_effects (workspace_stream_start out k s) = post_effects s"
  by (simp add: workspace_stream_start_def split: option.splits prod.splits)

lemma post_effects_workspace_stream_stop [simp]:
  "post_effects (workspace_stream_stop k s) = post_effects s"
  by (simp add: workspace_stream_stop_def split: option.splits)

lemma post_effects_paint_scene:
  "paint_scene out d s = Inr (d', s') \<Longrightarrow> post_effects s' = post_effects s"
  by (auto simp: paint_scene_def Let_def split: option.splits prod.splits if_splits)

lemma chain_inv_paint_post_effects:
  assumes c: "framebuffer_contract out" and inv: "chain_inv s"
    and p: "paint_post_effects out s = Inr s'"
  shows "chain_inv s'"
proof (cases "post_effects s = []")
  case True
  with p inv show ?thesis by (simp add: paint_post_effects_def)
next
  case False
  obtain posts final s1 where l: "post_chain_loop out (post_effects s) (default_buffer s) s = (posts, final, s1)"
    by (cases "post_chain_loop out (post_effects s) (default_buffer s) s")
  from p False l have s': "s' = s1\<lparr>post_effects := posts\<rparr>"
    by (simp add: paint_post_effects_def split: if_splits)
  from inv have all: "list_all (\<lambda>e. ids_ok (buffer e)) (post_effects s)"
    and z: "zero_ids (buffer (last (post_effects s)))"
    using False by (simp_all add: chain_inv_def)
  from post_chain_loop_inv [OF c all, of "default_buffer s" s] l z False
  show ?thesis by (simp add: s' chain_inv_def)
qed

lemma chain_inv_paint_finish:
  assumes "framebuffer_contract out" "chain_inv s"
  shows "chain_inv (paint_finish out d s)"
proof -
  have "post_effects (swap_buffers d (log_event Unbind_output
          (if output_inhibit s \<noteq> 0
           then log_event Render_end (log_event Clear_black (log_event Render_begin s))
           else s))) = post_effects s"
    by (simp add: swap_buffers_def)
  then have "chain_inv (swap_buffers d (log_event Unbind_output
          (if output_inhibit s \<noteq> 0
           then log_event Render_end (log_event Clear_black (log_event Render_begin s))
           else s)))"
    using assms(2) chain_inv_cong by blast
  then show ?thesis
    using assms(1) by (simp add: paint_finish_def Let_def chain_inv_post_paint)
qed

lemma post_effects_paint_begin [simp]:
  "post_effects (snd (paint_begin out s)) = post_effects s"
  by (simp add: paint_begin_def split_def Let_def)

lemma chain_inv_paint_frame:
  assumes c: "framebuffer_contract out" and inv: "chain_inv s"
    and p: "paint_frame out s = Inr s'"
  shows "chain_inv s'"
proof -
  obtain d1 s2 where b: "paint_begin out s = (d1, s2)" by (cases "paint_begin out s")
  then have "post_effects s2 = post_effects s"
    using post_effects_paint_begin [of out s] by simp
  with inv have i2: "chain_inv s2" using chain_inv_cong by blast
  from p b obtain d2 s3 where sc: "paint_scene out d1 s2 = Inr (d2, s3)"
    by (auto simp: paint_frame_def split: sum.splits)
  then have "post_effects s3 = post_effects s2" by (rule post_effects_paint_scene)
  with i2 have i3: "chain_inv s3" using chain_inv_cong by blast
  let ?s4 = "run_effects out WF_OUTPUT_EFFECT_OVERLAY s3"
  have i4: "chain_inv ?s4" using c i3 by (rule chain_inv_run_effects)
  let ?d = "if post_effects ?s4 \<noteq> []
            then pixman_region32_union_rect d2 0 0 (handle_width out) (handle_height out)
            else d2"
  let ?s5 = "log_event Render_end (log_event (Wlr_output_render_software_cursors ?d)
               (log_event Render_begin ?s4))"
  have i5: "chain_inv ?s5" using i4 by simp
  from p b sc obtain s6 where pe: "paint_post_effects out ?s5 = Inr s6"
    and s': "s' = paint_finish out ?d s6"
    by (auto simp: paint_frame_def Let_def split: sum.splits)
  from c i5 pe have "chain_inv s6" by (rule chain_inv_paint_post_effects)
  with c show ?thesis unfolding s' by (rule chain_inv_paint_finish)
qed

lemma chain_inv_paint:
  assumes c: "framebuffer_contract out" and inv: "chain_inv s"
    and p: "paint out s = Inr s'"
  shows "chain_inv s'"
proof -
  let ?s3 = "paint_prepare out s"
  have "chain_inv ((cleanup_post_hooks out s)\<lparr>frame_damage := []\<rparr>)"
    using chain_inv_cleanup [OF inv, of out] by (simp add: chain_inv_def)
  with c have i3: "chain_inv ?s3" unfolding paint_prepare_def by (rule chain_inv_run_effects)
  obtain r ns d s4 where m: "make_current out (frame_damage ?s3) ?s3 = (r, ns, d, s4)"
    by (cases "make_current out (frame_damage ?s3) ?s3") auto
  have "post_effects s4 = post_effects ?s3"
    using post_effects_make_current [of out "frame_damage ?s3" ?s3] m by simp
  then have "post_effects (s4\<lparr>frame_damage := d\<rparr>) = post_effects ?s3" by simp
  with i3 have i5: "chain_inv (s4\<lparr>frame_damage := d\<rparr>)" using chain_inv_cong by blast
  have pd: "paint out s =
      (if \<not> r then Inr (s4\<lparr>frame_damage := d\<rparr>)
       else if \<not> ns \<and> constant_redraw (s4\<lparr>frame_damage := d\<rparr>) = 0
       then Inr (post_paint out (s4\<lparr>frame_damage := d\<rparr>))
       else paint_frame out (s4\<lparr>frame_damage := d\<rparr>))"
    unfolding paint_def Let_def m by simp
  show ?thesis
  proof (cases "\<not> r")
    case True
    with p pd have "s' = s4\<lparr>frame_damage := d\<rparr>" by simp
    with i5 show ?thesis by simp
  next
    case nr: False
    show ?thesis
    proof (cases "\<not> ns \<and> constant_redraw (s4\<lparr>frame_damage := d\<rparr>) = 0")
      case True
      with p pd nr have "s' = post_paint out (s4\<lparr>frame_damage := d\<rparr>)" by simp
      with c i5 show ?thesis by (simp add: chain_inv_post_paint)
    next
      case False
      with p pd nr have "paint_frame out (s4\<lparr>frame_damage := d\<rparr>) = Inr s'"
        by (auto split: if_splits)
      with c i5 show ?thesis by (blast intro: chain_inv_paint_frame)
    qed
  qed
qed

lemma chain_inv_init: "chain_inv (render_manager_init out)"
  by (simp add: chain_inv_def render_manager_init_def output_damage_add_def
      output_damage_add_box_def schedule_repaint_def split_def)

lemma reachable_chain_inv: "reachable s \<Longrightarrow> chain_inv s"
proof (induction rule: reachable.induct)
  case (constructed out)
  show ?case by (rule chain_inv_init)
next
  case (called s out c)
  then show ?case by (simp add: chain_inv_exec_api)
next
  case (cleaned s out)
  then show ?case by (simp add: chain_inv_cleanup)
next
  case (redraw_idle s)
  then show ?case by (simp add: redraw_idle_cb_def chain_inv_def)
next
  case (damage_idle s out)
  then show ?case by (simp add: damage_idle_cb_def chain_inv_def)
next
  case (painted s out s')
  then show ?case by (blast intro: chain_inv_paint)
qed

lemma example_contract: "framebuffer_contract example_outside"
  by (simp add: framebuffer_contract_def example_outside_def example_allocate_def
      example_reset_def zero_ids_def real_ids_def)

section \<open>Scheduling against empty damage\<close>





section \<open>Running the model\<close>

text \<open>The definitions of the model, for evaluating it on concrete managers.\<close>

lemmas model_defs =
  log_event_def schedule_repaint_def output_damage_add_box_def output_damage_add_def
  output_damage_add_region_def make_current_def swap_buffers_def damage_box_def damage_def
  get_target_framebuffer_def schedule_redraw_def redraw_idle_cb_def auto_redraw_def
  add_inhibit_def damage_idle_cb_def reset_renderer_def set_renderer_def
  read_region_def write_region_def pixman_region32_selfcheck_def get_ws_damage_def
  add_effect_def rem_effect_def buffer_allocate_def buffer_release_def last_buffer_def
  set_last_buffer_def new_addr_def add_post_def rem_post_internal_def cleanup_post_hooks_def
  rem_post_def exec_api_def call_hook_def run_effects_def
  box_region_def schedule_render_snapshotted_view_def schedule_render_surface_def
  schedule_surfaces_def get_scaling_def stream_target_def stream_schedule_def stream_draw_def
  workspace_stream_update_def workspace_stream_start_def workspace_stream_stop_def
  send_frame_done_def post_paint_def paint_post_effects_def paint_finish_def paint_begin_def
  paint_scene_def paint_frame_def paint_prepare_def paint_def init_default_streams_def
  render_manager_init_def
  pixman_region32_init_def pixman_region32_init_rect_def pixman_region32_union_def
  pixman_region32_union_rect_def box_intersect_def pixman_region32_intersect_def
  pixman_region32_intersect_rect_def box_subtract_def region_subtract_box_def
  pixman_region32_subtract_def pixman_region32_translate_def pixman_region32_not_empty_def
  pixman_region32_rectangles_def wlr_box_from_pixman_box_def good_rect_def rect_box_def
  example_outside_def example_allocate_def example_release_def example_reset_def
  example_box_def surface_2_def surface_3_def example_view_def

text \<open>
  The first frame of a freshly constructed manager on the example output: the stream of
  workspace \<open>(0, 0)\<close> is started, the opaque surface 2 is the one surface drawn, the
  cursors are rendered, the buffers swapped and both surfaces told the frame is done.
\<close>

lemma first_frame:
  "map_sum id trace (paint example_outside (render_manager_init example_outside)) =
   Inr [Wlr_output_damage_add_box example_box, Wlr_output_schedule_frame, Add_idle_redraw,
        Wlr_output_damage_make_current True, Bind_output, Render_begin,
        Fb_allocate \<lparr>fb = 0, tex = 0, viewport_width = 0, viewport_height = 0\<rparr> 100 100,
        Render_end, Render_begin,
        Fb_allocate \<lparr>fb = 0, tex = 0, viewport_width = 0, viewport_height = 0\<rparr> 100 100,
        Emit_stream_signal ''workspace-stream-pre''
          (Some [rect_box 0 0 100 100, rect_box 0 0 100 100])
          \<lparr>base = \<lparr>fb = 0, tex = 0, viewport_width = 100, viewport_height = 100\<rparr>,
            geometry = example_box\<rparr>,
        Render_begin, Render_end,
        Render_fb (Surface 2) [rect_box 0 0 100 100, rect_box 0 0 100 100]
          \<lparr>base = \<lparr>fb = 0, tex = 0, viewport_width = 100, viewport_height = 100\<rparr>,
            geometry = example_box\<rparr>,
        Emit_stream_signal ''workspace-stream-post'' None
          \<lparr>base = \<lparr>fb = 0, tex = 0, viewport_width = 100, viewport_height = 100\<rparr>,
            geometry = example_box\<rparr>,
        Render_begin, Wlr_output_render_software_cursors [rect_box 0 0 100 100], Render_end,
        Unbind_output, Wlr_output_damage_swap_buffers [rect_box 0 0 100 100],
        Send_frame_done 2, Send_frame_done 3]"
  by (simp add: model_defs Let_def render_loop.simps)

section \<open>Workspace damage (\<^verbatim>\<open>get_ws_damage\<close>)\<close>

text \<open>
  C7.  For every workspace \<open>v = (vx, vy)\<close>, current workspace \<open>(cx, cy)\<close>, output size
  \<open>(sw, sh)\<close> and frame damage, \<^verbatim>\<open>get_ws_damage\<close> leaves in the caller's region the frame
  damage intersected with the rectangle \<open>((vx - cx) * sw, (vy - cy) * sh, sw, sh)\<close> and then
  translated by \<open>((cx - vx) * sw, (cy - vy) * sh)\<close>: the region the specification derives,
  whose pixels are the pixels \<open>p\<close> of the output-sized rectangle at the origin for which
  \<open>p\<close> moved into workspace \<open>v\<close> is damaged.
\<close>

theorem get_ws_damage_workspace_local:
  "\<exists>r. snd (get_ws_damage out v Caller_region (s, c)) = Some r
      \<and> r = ws_damage_spec v (get_current_workspace out) (transformed_resolution out)
              (frame_damage s)
      \<and> pixels r =
          (\<lambda>p. (fst p + (fst (get_current_workspace out) - fst v) * fst (transformed_resolution out),
                 snd p + (snd (get_current_workspace out) - snd v) * snd (transformed_resolution out)))
          ` (pixels (frame_damage s)
             \<inter> rect_pixels
                 ((fst v - fst (get_current_workspace out)) * fst (transformed_resolution out))
                 ((snd v - snd (get_current_workspace out)) * snd (transformed_resolution out))
                 (fst (transformed_resolution out)) (snd (transformed_resolution out)))
      \<and> pixels r =
          {p. p \<in> rect_pixels 0 0 (fst (transformed_resolution out))
                     (snd (transformed_resolution out))
              \<and> (fst p + (fst v - fst (get_current_workspace out)) * fst (transformed_resolution out),
                  snd p + (snd v - snd (get_current_workspace out)) * snd (transformed_resolution out))
                 \<in> pixels (frame_damage s)}"
proof -
  obtain vx vy where v: "v = (vx, vy)" by (cases v)
  obtain cx cy where cw: "get_current_workspace out = (cx, cy)"
    by (cases "get_current_workspace out")
  obtain sw sh where res: "transformed_resolution out = (sw, sh)"
    by (cases "transformed_resolution out")
  let ?r = "ws_damage_spec v (get_current_workspace out) (transformed_resolution out)
              (frame_damage s)"
  have eq: "snd (get_ws_damage out v Caller_region (s, c)) = Some ?r"
    by (simp add: get_ws_damage_def v cw res read_region_def write_region_def
        pixman_region32_selfcheck_def ws_damage_spec_def Let_def)
  have img: "pixels ?r = (\<lambda>p. (fst p + (cx - vx) * sw, snd p + (cy - vy) * sh))
          ` (pixels (frame_damage s) \<inter> rect_pixels ((vx - cx) * sw) ((vy - cy) * sh) sw sh)"
    by (simp add: ws_damage_spec_def v cw res pixels_translate pixels_intersect_rect)
  have loc: "(\<lambda>p. (fst p + (cx - vx) * sw, snd p + (cy - vy) * sh))
          ` (pixels (frame_damage s) \<inter> rect_pixels ((vx - cx) * sw) ((vy - cy) * sh) sw sh)
        = {p. p \<in> rect_pixels 0 0 sw sh
              \<and> (fst p + (vx - cx) * sw, snd p + (vy - cy) * sh) \<in> pixels (frame_damage s)}"
    (is "?f ` ?A = ?B")
  proof (rule set_eqI)
    fix q :: "int \<times> int"
    show "q \<in> ?f ` ?A \<longleftrightarrow> q \<in> ?B"
    proof
      assume "q \<in> ?f ` ?A"
      then obtain p where p: "p \<in> ?A" "q = ?f p" by blast
      have "(cx - vx) * sw = - ((vx - cx) * sw)" "(cy - vy) * sh = - ((vy - cy) * sh)"
        by (simp_all add: algebra_simps)
      with p show "q \<in> ?B" by (auto simp: rect_pixels_def)
    next
      assume q: "q \<in> ?B"
      let ?p = "(fst q + (vx - cx) * sw, snd q + (vy - cy) * sh)"
      have "?p \<in> ?A" using q by (auto simp: rect_pixels_def)
      moreover have "?f ?p = q" by (simp add: algebra_simps)
      ultimately show "q \<in> ?f ` ?A" by (metis (no_types, lifting) image_eqI)
    qed
  qed
  show ?thesis
    using eq img loc by (simp add: v cw res)
qed

text \<open>
  C10.  \<^verbatim>\<open>get_ws_damage\<close>, given a region of the caller's, writes that region only: the
  manager, its frame damage included, is afterwards what it was before, for every
  workspace argument.
\<close>

theorem get_ws_damage_leaves_manager:
  "fst (get_ws_damage out ws Caller_region (s, c)) = s"
  by (simp add: get_ws_damage_def read_region_def write_region_def
      pixman_region32_selfcheck_def Let_def split: prod.splits option.splits)

text \<open>Were the pointer the manager's own frame damage, the call would overwrite it.\<close>

lemma get_ws_damage_aliased:
  "frame_damage (fst (get_ws_damage out ws Manager_frame_damage (s, c))) =
   ws_damage_spec ws (get_current_workspace out) (transformed_resolution out) (frame_damage s)"
  by (simp add: get_ws_damage_def read_region_def write_region_def ws_damage_spec_def
      pixman_region32_selfcheck_def Let_def split: prod.splits option.splits)

section \<open>The redraw and inhibit counters\<close>

lemma redrawing_manager_counter:
  "constant_redraw redrawing_manager = 1 \<and> \<not> idle_redraw_source redrawing_manager"
  by (simp add: redrawing_manager_def redraw_idle_cb_def auto_redraw_def schedule_redraw_def
      render_manager_init_def output_damage_add_def output_damage_add_box_def
      schedule_repaint_def log_event_def Let_def split: prod.splits)

text \<open>
  C5, as the code has it.  Every call of \<^verbatim>\<open>auto_redraw\<close> adds 1 (\<open>True\<close>) or \<open>-1\<close> (\<open>False\<close>) to
  \<^verbatim>\<open>constant_redraw\<close> and clamps the result at 0.  \<^verbatim>\<open>schedule_redraw\<close> is called exactly
  on the calls whose adjusted counter is 0 or 1: the call with \<open>True\<close> from 0, and the
  calls with \<open>False\<close> from 1 and from 2.  So an idle redraw is queued exactly on those
  calls that find none queued.
\<close>

theorem auto_redraw_counter:
  "constant_redraw (auto_redraw redraw s)
     = max 0 (constant_redraw s + (if redraw then 1 else - 1))
   \<and> auto_redraw redraw s =
       (if constant_redraw s + (if redraw then 1 else - 1) = 0
           \<or> constant_redraw s + (if redraw then 1 else - 1) = 1
        then schedule_redraw
               (s\<lparr>constant_redraw := constant_redraw s + (if redraw then 1 else - 1)\<rparr>)
        else s\<lparr>constant_redraw := max 0 (constant_redraw s + (if redraw then 1 else - 1))\<rparr>)
   \<and> trace (auto_redraw redraw s) =
       trace s @ (if (constant_redraw s + (if redraw then 1 else - 1) = 0
                      \<or> constant_redraw s + (if redraw then 1 else - 1) = 1)
                     \<and> \<not> idle_redraw_source s
                  then [Add_idle_redraw] else [])"
  by (auto simp: auto_redraw_def schedule_redraw_def log_event_def Let_def)

text \<open>
  C5 as stated fails: on a manager whose counter is 1, \<^verbatim>\<open>auto_redraw(false)\<close> takes the
  counter from 1 to 0, which is no crossing from 0 to 1, and calls \<^verbatim>\<open>schedule_redraw\<close>, which
  queues an idle redraw.
\<close>

theorem auto_redraw_false_schedules:
  "constant_redraw redrawing_manager = 1
   \<and> constant_redraw (auto_redraw False redrawing_manager) = 0
   \<and> auto_redraw False redrawing_manager
       = schedule_redraw (redrawing_manager\<lparr>constant_redraw := 0\<rparr>)
   \<and> trace (auto_redraw False redrawing_manager) = trace redrawing_manager @ [Add_idle_redraw]
   \<and> idle_redraw_source (auto_redraw False redrawing_manager)"
  using redrawing_manager_counter
  by (simp add: auto_redraw_def schedule_redraw_def log_event_def Let_def)

text \<open>
  C6 fails for \<^verbatim>\<open>output_inhibit\<close>: \<^verbatim>\<open>add_inhibit(false)\<close> on a freshly constructed manager
  leaves the counter at \<open>-1\<close>.  (\<^verbatim>\<open>auto_redraw\<close> clamps its counter; \<^verbatim>\<open>add_inhibit\<close> does not.)
\<close>

theorem add_inhibit_goes_negative:
  "output_inhibit (add_inhibit out False (render_manager_init out)) = - 1"
  by (simp add: add_inhibit_def render_manager_init_def schedule_redraw_def output_damage_add_def
      output_damage_add_box_def schedule_repaint_def log_event_def Let_def split: prod.splits)

text \<open>The other half of C6 holds: \<^verbatim>\<open>constant_redraw\<close> is never negative after a call.\<close>

lemma auto_redraw_nonnegative: "0 \<le> constant_redraw (auto_redraw redraw s)"
  by (auto simp: auto_redraw_def schedule_redraw_def log_event_def Let_def)

section \<open>Making the output current\<close>

text \<open>
  C2.  Whenever \<^verbatim>\<open>make_current(out_damage, need_swap)\<close> returns success, \<^verbatim>\<open>out_damage\<close> covers
  exactly the damage the display's damage manager reported, together with the damage
  this manager accumulated outside the output rectangle \<open>(0, 0, w, h)\<close>, and together
  with the whole output rectangle when \<^verbatim>\<open>no_damage_track\<close> is set.  Afterwards the
  accumulated frame damage has no pixel in the output rectangle, so none of its
  rectangles lies inside the output rectangle.
\<close>

theorem make_current_out_damage:
  assumes "fst (make_current out out_damage s)"
  shows "pixels (fst (snd (snd (make_current out out_damage s)))) =
           pixels (snd (snd (wlr_output_damage_make_current out (trace s) out_damage)))
           \<union> (pixels (output_damage_frame_damage s)
                - rect_pixels 0 0 (fst (transformed_resolution out)) (snd (transformed_resolution out)))
           \<union> (if no_damage_track out
               then rect_pixels 0 0 (fst (transformed_resolution out)) (snd (transformed_resolution out))
               else {})
         \<and> pixels (output_damage_frame_damage (snd (snd (snd (make_current out out_damage s)))))
             \<inter> rect_pixels 0 0 (fst (transformed_resolution out)) (snd (transformed_resolution out)) = {}
         \<and> list_all (\<lambda>b. \<not> pixels [b] \<subseteq> rect_pixels 0 0 (fst (transformed_resolution out))
                                         (snd (transformed_resolution out)))
             (pixman_region32_rectangles
                (output_damage_frame_damage (snd (snd (snd (make_current out out_damage s))))))"
proof -
  obtain r ns tracked where w: "wlr_output_damage_make_current out (trace s) out_damage = (r, ns, tracked)"
    by (cases "wlr_output_damage_make_current out (trace s) out_damage")
  obtain W H where res: "transformed_resolution out = (W, H)"
    by (cases "transformed_resolution out")
  from assms have r: "r" by (simp add: make_current_def w Let_def split: if_splits)
  let ?fd = "pixman_region32_subtract (output_damage_frame_damage s) (pixman_region32_init_rect 0 0 W H)"
  have out_eq: "fst (snd (snd (make_current out out_damage s))) =
      (if no_damage_track out
       then pixman_region32_union (pixman_region32_union tracked ?fd) (pixman_region32_init_rect 0 0 W H)
       else pixman_region32_union tracked ?fd)"
    by (simp add: make_current_def w r res Let_def log_event_def)
  have fd_eq: "output_damage_frame_damage (snd (snd (snd (make_current out out_damage s)))) = ?fd"
    by (simp add: make_current_def w r res Let_def log_event_def)
  have fd_pix: "pixels ?fd = pixels (output_damage_frame_damage s) - rect_pixels 0 0 W H"
    by (simp add: pixels_subtract pixels_init_rect)
  have rects: "list_all (\<lambda>b. \<not> pixels [b] \<subseteq> rect_pixels 0 0 W H) (pixman_region32_rectangles ?fd)"
    unfolding list_all_iff
  proof
    fix b assume b: "b \<in> set (pixman_region32_rectangles ?fd)"
    then have g: "good_rect b" and m: "b \<in> set ?fd"
      by (auto simp: pixman_region32_rectangles_def)
    from g have p: "(x1 b, y1 b) \<in> pixels [b]"
      by (simp add: pixels_Cons pixels_Nil in_box_def good_rect_def)
    have "pixels [b] \<subseteq> pixels ?fd" using m by (auto simp: pixels_def)
    with p have "(x1 b, y1 b) \<in> pixels ?fd" by blast
    then have "(x1 b, y1 b) \<notin> rect_pixels 0 0 W H" by (simp add: fd_pix)
    with p show "\<not> pixels [b] \<subseteq> rect_pixels 0 0 W H" by blast
  qed
  show ?thesis
    unfolding out_eq fd_eq using rects
    by (auto simp: res w fd_pix pixels_union pixels_init_rect)
qed

text \<open>An instance: a box reaching 40 pixels beyond the right edge of the 100 by 100 output
  was damaged before the frame.\<close>

theorem make_current_out_damage_witness:
  "fst (make_current example_outside []
          (damage_box example_outside \<lparr>box_x = 90, box_y = 0, box_width = 50, box_height = 10\<rparr>
             (render_manager_init example_outside)))
   \<and> pixels (fst (snd (snd (make_current example_outside []
          (damage_box example_outside \<lparr>box_x = 90, box_y = 0, box_width = 50, box_height = 10\<rparr>
             (render_manager_init example_outside)))))) =
       pixels (snd (snd (wlr_output_damage_make_current example_outside
          (trace (damage_box example_outside
                    \<lparr>box_x = 90, box_y = 0, box_width = 50, box_height = 10\<rparr>
                    (render_manager_init example_outside))) [])))
       \<union> (pixels (output_damage_frame_damage
             (damage_box example_outside \<lparr>box_x = 90, box_y = 0, box_width = 50, box_height = 10\<rparr>
                (render_manager_init example_outside)))
            - rect_pixels 0 0 100 100)"
proof -
  let ?s = "damage_box example_outside \<lparr>box_x = 90, box_y = 0, box_width = 50, box_height = 10\<rparr>
              (render_manager_init example_outside)"
  have ok: "fst (make_current example_outside [] ?s)"
    by (simp add: make_current_def example_outside_def Let_def)
  show ?thesis
    using ok make_current_out_damage [OF ok] by (simp add: example_outside_def)
qed

section \<open>Effect hooks\<close>

text \<open>
  C9.  \<^verbatim>\<open>run_effects\<close> on a phase calls exactly the hooks that were in the phase's list when
  it began, in the order of the list, whatever the hooks do to the manager while they
  run: a hook's calls of \<^verbatim>\<open>add_effect\<close> and \<^verbatim>\<open>rem_effect\<close> change the list, not the calls
  of this run.
\<close>

theorem run_effects_snapshot:
  "effect_calls (trace (run_effects out type s)) = effect_calls (trace s) @ effects s type"
  by (simp add: run_effects_def effect_calls_run_active)

text \<open>An instance: hooks 1 and 2 are registered; hook 1 adds hook 3 and removes hook 2.
  Both 1 and 2 are called, 3 is not, and the list is \<open>[1, 3]\<close> afterwards.\<close>

theorem run_effects_snapshot_witness:
  "effect_calls (trace (run_effects example_outside WF_OUTPUT_EFFECT_PRE
      (add_effect 2 WF_OUTPUT_EFFECT_PRE (add_effect 1 WF_OUTPUT_EFFECT_PRE
         (render_manager_init example_outside))))) = [1, 2]
   \<and> effects (run_effects example_outside WF_OUTPUT_EFFECT_PRE
      (add_effect 2 WF_OUTPUT_EFFECT_PRE (add_effect 1 WF_OUTPUT_EFFECT_PRE
         (render_manager_init example_outside)))) WF_OUTPUT_EFFECT_PRE = [1, 3]"
proof -
  have e: "effects (run_effects example_outside WF_OUTPUT_EFFECT_PRE
      (add_effect 2 WF_OUTPUT_EFFECT_PRE (add_effect 1 WF_OUTPUT_EFFECT_PRE
         (render_manager_init example_outside)))) WF_OUTPUT_EFFECT_PRE = [1, 3]"
    by (simp add: run_effects_def call_hook_def exec_api_def add_effect_def rem_effect_def
        log_event_def render_manager_init_def schedule_redraw_def output_damage_add_def
        output_damage_add_box_def schedule_repaint_def example_outside_def Let_def)
  have t: "effect_calls (trace (add_effect 2 WF_OUTPUT_EFFECT_PRE (add_effect 1 WF_OUTPUT_EFFECT_PRE
         (render_manager_init example_outside)))) = []"
    by (simp add: add_effect_def log_event_def render_manager_init_def schedule_redraw_def
        output_damage_add_def output_damage_add_box_def schedule_repaint_def example_outside_def)
  have l: "effects (add_effect 2 WF_OUTPUT_EFFECT_PRE (add_effect 1 WF_OUTPUT_EFFECT_PRE
         (render_manager_init example_outside))) WF_OUTPUT_EFFECT_PRE = [1, 2]"
    by (simp add: add_effect_def log_event_def render_manager_init_def schedule_redraw_def
        output_damage_add_def output_damage_add_box_def schedule_repaint_def example_outside_def)
  show ?thesis
    using e t l run_effects_snapshot [of example_outside WF_OUTPUT_EFFECT_PRE
        "add_effect 2 WF_OUTPUT_EFFECT_PRE (add_effect 1 WF_OUTPUT_EFFECT_PRE
           (render_manager_init example_outside))"]
    by simp
qed

section \<open>Drawing order\<close>



section \<open>The post-effect chain ends on the display\<close>

text \<open>
  C1.  Take any state the manager can be in: constructed, and then driven by its
  operations, its idle callbacks and its frames, with a framebuffer helper that keeps to
  \<open>framebuffer_contract\<close> (the helper's code is not part of the render manager).  Right
  after \<^verbatim>\<open>add_post(hook)\<close> the chain is not empty, its last entry is the new hook's and has
  buffer ids \<open>fb = 0\<close> and \<open>tex = 0\<close>, and the entry that was last before, if there was one,
  is still in front of it and now has a buffer with ids of its own.  After
  \<^verbatim>\<open>cleanup_post_hooks\<close>, whether it follows \<^verbatim>\<open>rem_post(hook)\<close> directly or not, the chain is
  empty or its last entry has buffer ids \<open>fb = 0\<close> and \<open>tex = 0\<close>.
\<close>

theorem post_chain_terminal:
  assumes "reachable s" and "framebuffer_contract out"
  shows "post_effects (add_post out hk s) \<noteq> []
       \<and> zero_ids (buffer (last (post_effects (add_post out hk s))))
       \<and> hook (last (post_effects (add_post out hk s))) = hk
       \<and> (post_effects s = [] \<or>
            (real_ids (buffer (last (butlast (post_effects (add_post out hk s)))))
             \<and> addr (last (butlast (post_effects (add_post out hk s)))) = addr (last (post_effects s))
             \<and> hook (last (butlast (post_effects (add_post out hk s)))) = hook (last (post_effects s))))
       \<and> (post_effects (cleanup_post_hooks out (rem_post out hk s)) = [] \<or>
            zero_ids (buffer (last (post_effects (cleanup_post_hooks out (rem_post out hk s))))))
       \<and> (post_effects (cleanup_post_hooks out s) = [] \<or>
            zero_ids (buffer (last (post_effects (cleanup_post_hooks out s)))))"
proof -
  from assms(1) have inv: "chain_inv s" by (rule reachable_chain_inv)
  have a: "chain_inv (add_post out hk s)" using assms(2) inv by (rule chain_inv_add_post)
  have ne: "post_effects (add_post out hk s) \<noteq> []"
    and hk: "hook (last (post_effects (add_post out hk s))) = hk"
    using add_post_last [of out hk s] by simp_all
  have prev: "post_effects s = [] \<or>
            (real_ids (buffer (last (butlast (post_effects (add_post out hk s)))))
             \<and> addr (last (butlast (post_effects (add_post out hk s)))) = addr (last (post_effects s))
             \<and> hook (last (butlast (post_effects (add_post out hk s)))) = hook (last (post_effects s)))"
    using assms(2) by (simp add: add_post_butlast framebuffer_contract_def)
  have r: "chain_inv (cleanup_post_hooks out (rem_post out hk s))"
    using inv by (simp add: chain_inv_cleanup chain_inv_rem_post)
  have cl: "chain_inv (cleanup_post_hooks out s)" using inv by (rule chain_inv_cleanup)
  show ?thesis
    using a ne hk prev r cl by (simp add: chain_inv_def)
qed

text \<open>An instance: a third post effect is added to a manager that has two, hooks 5 and 6;
  and hook 6, the last, is removed from it, which leaves hook 5 last, its buffer released
  and set to the display's ids.\<close>

theorem post_chain_terminal_witness:
  "reachable two_post_manager \<and> framebuffer_contract example_outside
   \<and> map hook (post_effects two_post_manager) = [5, 6]
   \<and> zero_ids (buffer (last (post_effects (add_post example_outside 7 two_post_manager))))
   \<and> real_ids (buffer (last (butlast (post_effects (add_post example_outside 7 two_post_manager)))))
   \<and> map hook (post_effects
         (cleanup_post_hooks example_outside (rem_post example_outside 6 two_post_manager))) = [5]
   \<and> zero_ids (buffer (last (post_effects
         (cleanup_post_hooks example_outside (rem_post example_outside 6 two_post_manager)))))"
proof -
  have r: "reachable two_post_manager"
    unfolding two_post_manager_def one_post_manager_def
    by (intro reachable.called reachable.constructed example_contract)
  have h: "map hook (post_effects two_post_manager) = [5, 6]"
    by (simp add: model_defs two_post_manager_def one_post_manager_def Let_def)
  have c: "map hook (post_effects
         (cleanup_post_hooks example_outside (rem_post example_outside 6 two_post_manager))) = [5]"
    by (simp add: model_defs two_post_manager_def one_post_manager_def Let_def)
  from h c have ne: "post_effects two_post_manager \<noteq> []"
    "post_effects (cleanup_post_hooks example_outside
       (rem_post example_outside 6 two_post_manager)) \<noteq> []"
    by auto
  show ?thesis
    using post_chain_terminal [OF r example_contract, of 7]
      post_chain_terminal [OF r example_contract, of 6] r h c ne example_contract
    by simp
qed

section \<open>Occlusion\<close>




section \<open>A frame the display refuses\<close>

text \<open>
  C8.  Whenever \<^verbatim>\<open>make_current\<close> fails during \<^verbatim>\<open>paint\<close>, \<^verbatim>\<open>paint\<close> returns at once and
  without a failure.  The manager is as the clean-up of the post hooks and the pre
  effects left it, except that the frame damage holds what wlroots left in it; and the
  one event after the pre effects is the refused \<^verbatim>\<open>make_current\<close>: nothing is bound,
  allocated, cleared or rendered, no overlay or post effect runs, no buffer is swapped
  and \<^verbatim>\<open>post_paint\<close> is not called.
\<close>

theorem paint_make_current_fails:
  assumes "\<not> fst (make_current out (frame_damage (paint_prepare out s)) (paint_prepare out s))"
  shows "paint out s =
     Inr ((paint_prepare out s)
            \<lparr>frame_damage := snd (snd (wlr_output_damage_make_current out
                                 (trace (paint_prepare out s)) (frame_damage (paint_prepare out s)))),
             trace := trace (paint_prepare out s) @ [Wlr_output_damage_make_current False]\<rparr>)"
proof -
  let ?s3 = "paint_prepare out s"
  obtain r ns d where w: "wlr_output_damage_make_current out (trace ?s3) (frame_damage ?s3) = (r, ns, d)"
    by (cases "wlr_output_damage_make_current out (trace ?s3) (frame_damage ?s3)")
  from assms have r: "\<not> r"
    by (simp add: make_current_def w Let_def split: if_splits prod.splits)
  have m: "make_current out (frame_damage ?s3) ?s3
      = (False, ns, d, ?s3\<lparr>trace := trace ?s3 @ [Wlr_output_damage_make_current False]\<rparr>)"
    using r by (simp add: make_current_def w Let_def log_event_def)
  show ?thesis
    unfolding paint_def Let_def m by (simp add: w)
qed

text \<open>An instance: a display that refuses every \<^verbatim>\<open>make_current\<close>.\<close>

theorem paint_make_current_fails_witness:
  "\<not> fst (make_current failing_outside
            (frame_damage (paint_prepare failing_outside one_post_manager))
            (paint_prepare failing_outside one_post_manager))
   \<and> paint failing_outside one_post_manager =
     Inr ((paint_prepare failing_outside one_post_manager)
            \<lparr>frame_damage := snd (snd (wlr_output_damage_make_current failing_outside
                                 (trace (paint_prepare failing_outside one_post_manager))
                                 (frame_damage (paint_prepare failing_outside one_post_manager)))),
             trace := trace (paint_prepare failing_outside one_post_manager)
                      @ [Wlr_output_damage_make_current False]\<rparr>)"
proof -
  have f: "\<not> fst (make_current failing_outside
            (frame_damage (paint_prepare failing_outside one_post_manager))
            (paint_prepare failing_outside one_post_manager))"
    by (simp add: make_current_def failing_outside_def Let_def)
  show ?thesis using f paint_make_current_fails [OF f] by simp
qed

end
